theory Spec2Isabelle
  imports Main
begin

section \<open>JavaScript string and object primitives used by the handlers\<close>

text \<open>
  Strings are lists of characters. The handlers of \<^verbatim>\<open>src/app/page.jsx\<close> use
  \<^verbatim>\<open>split('.')\<close>, \<^verbatim>\<open>pop()\<close>, index \<^verbatim>\<open>[0]\<close>, \<^verbatim>\<open>toLowerCase()\<close>,
  \<^verbatim>\<open>toString()\<close> on a number and lookups in object literals; each gets a function here.
\<close>

text \<open>\<^verbatim>\<open>s.split(c)\<close>: the pieces of \<open>s\<close> between the occurrences of \<open>c\<close>; never empty
  (\<^verbatim>\<open>"".split('.')\<close> is \<^verbatim>\<open>[""]\<close>).\<close>

fun split :: "char \<Rightarrow> string \<Rightarrow> string list" where
  "split c [] = [[]]"
| "split c (x # xs) =
     (if x = c then [] # split c xs
      else (case split c xs of [] \<Rightarrow> [[x]] | p # ps \<Rightarrow> (x # p) # ps))"

text \<open>\<^verbatim>\<open>name.split('.').pop()\<close> and \<^verbatim>\<open>name.split('.')[0]\<close>. The array is never empty,
  so neither is ever \<^verbatim>\<open>undefined\<close>.\<close>

definition split_pop :: "string \<Rightarrow> string" where
  "split_pop name = last (split (CHR ''.'') name)"

definition split_first :: "string \<Rightarrow> string" where
  "split_first name = hd (split (CHR ''.'') name)"

text \<open>\<^verbatim>\<open>toLowerCase()\<close> on the ASCII letters; every other character is kept (the model
  covers ASCII names).\<close>

definition lower_char :: "char \<Rightarrow> char" where
  "lower_char c =
     (let n = (of_char c :: int) in if 65 \<le> n \<and> n \<le> 90 then char_of (n + 32) else c)"

definition toLowerCase :: "string \<Rightarrow> string" where
  "toLowerCase s = map lower_char s"

text \<open>\<^verbatim>\<open>Number.prototype.toString()\<close> on an integer: decimal digits, a leading minus sign
  for a negative number.\<close>

definition digit_char :: "int \<Rightarrow> char" where
  "digit_char d = char_of (48 + d)"

function digits :: "int \<Rightarrow> string" where
  "digits n = (if n < 10 then [digit_char n] else digits (n div 10) @ [digit_char (n mod 10)])"
  by pat_completeness auto
termination
  by (relation "measure nat") auto

declare digits.simps [simp del]

definition toString :: "int \<Rightarrow> string" where
  "toString i = (if i < 0 then CHR ''-'' # digits (- i) else digits i)"

text \<open>A lookup \<^verbatim>\<open>table[key]\<close> in an object literal finds the literal's own entries and,
  failing that, the members every object inherits from \<^verbatim>\<open>Object.prototype\<close>. An
  inherited member is a function or an object, never a string; the handlers below stop
  with no result (\<open>None\<close>) where they would store such a value.\<close>

datatype 'a js_lookup = Own 'a | Inherited | Undefined

definition objectPrototypeKeys :: "string list" where
  "objectPrototypeKeys =
     [''constructor'', ''__defineGetter__'', ''__defineSetter__'', ''hasOwnProperty'',
      ''__lookupGetter__'', ''__lookupSetter__'', ''isPrototypeOf'', ''propertyIsEnumerable'',
      ''toString'', ''valueOf'', ''__proto__'', ''toLocaleString'']"

definition js_lookup :: "(string \<times> 'a) list \<Rightarrow> string \<Rightarrow> 'a js_lookup" where
  "js_lookup table key =
     (case map_of table key of
        Some v \<Rightarrow> Own v
      | None \<Rightarrow> if key \<in> set objectPrototypeKeys then Inherited else Undefined)"

section \<open>The session state\<close>

text \<open>The state of the \<^verbatim>\<open>Home\<close> component (\<^verbatim>\<open>useState\<close> cells), one record; each
  setter call of the source is a field update.\<close>

record openFile =
  file_id :: string
  file_name :: string
  file_content :: string
  file_language :: string

datatype tc_status = Pending | Success | Error

record testCase =
  tc_id :: int
  tc_input :: string
  tc_output :: "string option"
  tc_status :: tc_status

record historyItem =
  h_id :: int
  h_timestamp :: string
  h_language :: string
  h_files :: "openFile list"
  h_testCases :: "testCase list"

record session =
  theme :: string
  language :: string
  files :: "openFile list"
  activeFileId :: string
  testCases :: "testCase list"
  history :: "historyItem list"
  isLoading :: bool
  stdin :: string

text \<open>The initial values of the \<^verbatim>\<open>useState\<close> cells (page.jsx, lines 26-52).\<close>

definition nl :: char where
  "nl = CHR 0x0A"

definition initialFile :: openFile where
  "initialFile =
     \<lparr>file_id = ''1'', file_name = ''main.js'',
      file_content = ''// Main entry point'' @ [nl] @ ''console.log('' @ [CHR 0x27] @ ''Hello from main!''
        @ [CHR 0x27] @ '');'',
      file_language = ''javascript''\<rparr>"

definition initialTestCase :: testCase where
  "initialTestCase = \<lparr>tc_id = 1, tc_input = '''', tc_output = None, tc_status = Pending\<rparr>"

definition initialSession :: session where
  "initialSession =
     \<lparr>theme = ''dark'', language = ''javascript'', files = [initialFile], activeFileId = ''1'',
      testCases = [initialTestCase], history = [], isLoading = False, stdin = ''''\<rparr>"

section \<open>File operations\<close>

text \<open>\<^verbatim>\<open>handleCreateFile\<close> (page.jsx, lines 190-200). \<open>getTemplateForFile\<close> is imported from
  \<^verbatim>\<open>@/utils/templates\<close>, a module outside the given sources, and is a parameter: \<open>None\<close>
  stands for a falsy result. \<open>now\<close> is the value \<^verbatim>\<open>Date.now()\<close> returns at the call.\<close>

definition handleCreateFile :: "(string \<Rightarrow> string option) \<Rightarrow> int \<Rightarrow> string \<Rightarrow> session \<Rightarrow> session" where
  "handleCreateFile getTemplateForFile now fileName s =
     (let template = getTemplateForFile fileName;
          newFile = \<lparr>file_id = toString now, file_name = fileName,
                     file_content = (case template of Some t \<Rightarrow> t | None \<Rightarrow> ''''),
                     file_language = language s\<rparr>
      in s\<lparr>files := files s @ [newFile], activeFileId := file_id newFile\<rparr>)"



text \<open>\<^verbatim>\<open>x || d\<close> on a string that may be absent: the empty string is falsy as well.\<close>

fun orElse :: "string option \<Rightarrow> string \<Rightarrow> string" where
  "orElse None d = d"
| "orElse (Some x) d = (if x = [] then d else x)"

fun truthy :: "string option \<Rightarrow> bool" where
  "truthy None = False"
| "truthy (Some x) = (x \<noteq> [])"

text \<open>\<^verbatim>\<open>handleRenameFile\<close> (page.jsx, lines 209-229). \<open>languageTemplates\<close> is the table
  imported from \<^verbatim>\<open>@/utils/templates\<close> (outside the given sources), a parameter.\<close>

definition extensionToLanguage :: "(string \<times> string) list" where
  "extensionToLanguage =
     [(''js'', ''javascript''), (''py'', ''python''), (''cpp'', ''cpp''), (''java'', ''java''),
      (''c'', ''c'')]"

definition renameOnly :: "string \<Rightarrow> string \<Rightarrow> openFile list \<Rightarrow> openFile list" where
  "renameOnly fid newName fs = map (\<lambda>f. if file_id f = fid then f\<lparr>file_name := newName\<rparr> else f) fs"

definition renameWithTemplate :: "string \<Rightarrow> string \<Rightarrow> string \<Rightarrow> string \<Rightarrow> openFile list \<Rightarrow> openFile list" where
  "renameWithTemplate fid newName newTemplate newLang fs =
     map (\<lambda>f. if file_id f = fid
              then f\<lparr>file_name := newName, file_content := newTemplate, file_language := newLang\<rparr>
              else f) fs"

definition handleRenameFile :: "(string \<Rightarrow> string option) \<Rightarrow> string \<Rightarrow> string \<Rightarrow> session \<Rightarrow> session option" where
  "handleRenameFile languageTemplates fid newName s =
     (case find (\<lambda>f. file_id f = fid) (files s) of
        None \<Rightarrow> Some s
      | Some file \<Rightarrow>
          let oldExtension = toLowerCase (split_pop (file_name file));
              newExtension = toLowerCase (split_pop newName)
          in if oldExtension \<noteq> newExtension
             then (case js_lookup extensionToLanguage newExtension of
                     Own newLang \<Rightarrow>
                       Some (s\<lparr>language := newLang,
                               files := renameWithTemplate fid newName
                                          (orElse (languageTemplates newLang) []) newLang (files s)\<rparr>)
                   | Inherited \<Rightarrow> None
                   | Undefined \<Rightarrow> Some (s\<lparr>files := renameOnly fid newName (files s)\<rparr>))
             else Some (s\<lparr>files := renameOnly fid newName (files s)\<rparr>))"

text \<open>\<^verbatim>\<open>saveEditing\<close> of the file tabs (src/unnamed/part_001, lines 51-76): the only caller
  of \<^verbatim>\<open>onRenameFile\<close>. \<^verbatim>\<open>trim()\<close> removes leading and trailing white space and line terminators: of the
  characters below 256 these are tab, line feed, vertical tab, form feed, carriage
  return, space and the no-break space.\<close>

definition is_space :: "char \<Rightarrow> bool" where
  "is_space c = ((of_char c :: int) \<in> {9, 10, 11, 12, 13, 32, 160})"

definition trim :: "string \<Rightarrow> string" where
  "trim s = rev (dropWhile is_space (rev (dropWhile is_space s)))"

definition validExtensions :: "string list" where
  "validExtensions = [''js'', ''py'', ''cpp'', ''java'', ''c'']"

datatype editResult = ExitEditMode | AlertMissingExtension | AlertInvalidExtension
  | OnRenameFile string string

definition saveEditing :: "string option \<Rightarrow> string \<Rightarrow> editResult" where
  "saveEditing editingId editName =
     (case editingId of
        None \<Rightarrow> ExitEditMode
      | Some eid \<Rightarrow>
          if eid = [] \<or> trim editName = [] then ExitEditMode
          else
            let parts = split (CHR ''.'') (trim editName) in
            if length parts < 2 then AlertMissingExtension
            else
              let extension = toLowerCase (last parts) in
              if extension \<notin> set validExtensions then AlertInvalidExtension
              else OnRenameFile eid (trim editName))"

text \<open>The language effect (page.jsx, lines 125-149), run after a render in which
  \<open>language\<close> or \<open>activeFileId\<close> changed.\<close>

definition extensionMap :: "(string \<times> string) list" where
  "extensionMap =
     [(''javascript'', ''js''), (''python'', ''py''), (''cpp'', ''cpp''), (''java'', ''java''),
      (''c'', ''c'')]"

definition getExtensionFromLanguage :: "string \<Rightarrow> string option" where
  "getExtensionFromLanguage lang =
     (case js_lookup extensionMap lang of
        Own e \<Rightarrow> Some e
      | Undefined \<Rightarrow> Some ''txt''
      | Inherited \<Rightarrow> None)"

definition languageEffect :: "(string \<Rightarrow> string option) \<Rightarrow> session \<Rightarrow> session option" where
  "languageEffect languageTemplates s =
     (if activeFileId s = [] then Some s
      else
        case find (\<lambda>f. file_id f = activeFileId s) (files s) of
          None \<Rightarrow> Some s
        | Some activeFile \<Rightarrow>
            (case getExtensionFromLanguage (language s) of
               None \<Rightarrow> None
             | Some newExtension \<Rightarrow>
                 let currentExtension = split_pop (file_name activeFile) in
                 if currentExtension \<noteq> newExtension
                 then
                   let baseName = split_first (file_name activeFile);
                       newName = baseName @ ''.'' @ newExtension;
                       newTemplate = orElse (languageTemplates (language s)) []
                   in Some (s\<lparr>files := renameWithTemplate (activeFileId s) newName newTemplate
                                          (language s) (files s)\<rparr>)
                 else Some s))"

text \<open>A change of the language selector: \<^verbatim>\<open>setLanguage(lang)\<close>, then the effect.\<close>

definition setLanguage :: "string \<Rightarrow> session \<Rightarrow> session" where
  "setLanguage lang s = s\<lparr>language := lang\<rparr>"

definition changeLanguage :: "(string \<Rightarrow> string option) \<Rightarrow> string \<Rightarrow> session \<Rightarrow> session option" where
  "changeLanguage languageTemplates lang s = languageEffect languageTemplates (setLanguage lang s)"

section \<open>Running the test cases\<close>

text \<open>The browser's \<^verbatim>\<open>atob\<close> (forgiving base64 decoding): white space is dropped, one or
  two trailing \<^verbatim>\<open>=\<close> are dropped when the length is a multiple of four, a length of
  1 modulo 4 or a character outside the alphabet raises (\<open>None\<close>), and every four
  characters give three bytes.\<close>

definition b64_value :: "char \<Rightarrow> int option" where
  "b64_value c =
     (let n = (of_char c :: int) in
      if 65 \<le> n \<and> n \<le> 90 then Some (n - 65)
      else if 97 \<le> n \<and> n \<le> 122 then Some (n - 71)
      else if 48 \<le> n \<and> n \<le> 57 then Some (n + 4)
      else if n = 43 then Some 62
      else if n = 47 then Some 63
      else None)"

fun b64_bytes :: "int list \<Rightarrow> string" where
  "b64_bytes (a # b # c # d # rest) =
     (let v = ((a * 64 + b) * 64 + c) * 64 + d
      in char_of (v div 65536) # char_of (v div 256 mod 256) # char_of (v mod 256) # b64_bytes rest)"
| "b64_bytes [a, b, c] =
     (let v = (a * 64 + b) * 64 + c in [char_of (v div 1024), char_of (v div 4 mod 256)])"
| "b64_bytes [a, b] = [char_of ((a * 64 + b) div 16)]"
| "b64_bytes [a] = []"
| "b64_bytes [] = []"

definition is_b64_space :: "char \<Rightarrow> bool" where
  "is_b64_space c = ((of_char c :: int) \<in> {9, 10, 12, 13, 32})"

definition strip_padding :: "string \<Rightarrow> string" where
  "strip_padding t =
     (if length t mod 4 = 0 \<and> t \<noteq> [] \<and> last t = CHR ''=''
      then (if butlast t \<noteq> [] \<and> last (butlast t) = CHR ''='' then butlast (butlast t)
            else butlast t)
      else t)"

definition atob :: "string \<Rightarrow> string option" where
  "atob s =
     (let u = strip_padding (filter (\<lambda>c. \<not> is_b64_space c) s) in
      if length u mod 4 = 1 then None
      else (case those (map b64_value u) of
              None \<Rightarrow> None
            | Some vs \<Rightarrow> Some (b64_bytes vs)))"

text \<open>The judge's answer as \<^verbatim>\<open>handleRun\<close> reads it (page.jsx, lines 311-324). An absent
  or null field is \<open>None\<close>.\<close>

record judgeStatus =
  st_id :: "int option"
  st_description :: "string option"

record judgeResult =
  stdout :: "string option"
  stderr :: "string option"
  compile_output :: "string option"
  status :: "judgeStatus option"

record responseData =
  success :: bool
  message :: "string option"
  result :: "judgeResult option"

text \<open>What one request comes to: \<open>Rejected msg\<close> when \<^verbatim>\<open>fetch\<close> or
  \<^verbatim>\<open>response.json()\<close> rejects with an error whose message is \<open>msg\<close>, \<open>Resolved data\<close>
  when the body parses to the object \<open>data\<close>.\<close>

datatype fetchOutcome = Rejected string | Resolved responseData

text \<open>The errors the engine itself raises inside the inner \<^verbatim>\<open>try\<close>; the text of their
  \<^verbatim>\<open>message\<close> depends on the engine and is a parameter \<open>errorMessage\<close>.\<close>

datatype engineError = DestructureUndefined | InvalidCharacter

record request =
  rq_files :: "(string \<times> string) list"
  rq_fileToCompile :: string
  rq_languageId :: int
  rq_input :: string

text \<open>\<^verbatim>\<open>if (field) outputText += `${label}\n${atob(field)}\n`\<close>; \<open>None\<close> once \<^verbatim>\<open>atob\<close>
  has raised.\<close>

definition appendDecoded :: "string \<Rightarrow> string option \<Rightarrow> string option \<Rightarrow> string option" where
  "appendDecoded label field outputText =
     (case outputText of
        None \<Rightarrow> None
      | Some text \<Rightarrow>
          (case field of
             None \<Rightarrow> Some text
           | Some enc \<Rightarrow>
               if enc = [] then Some text
               else (case atob enc of
                       None \<Rightarrow> None
                     | Some dec \<Rightarrow> Some (text @ label @ [nl] @ dec @ [nl]))))"

definition statusLine :: "judgeResult \<Rightarrow> string" where
  "statusLine r =
     (case status r of
        None \<Rightarrow> []
      | Some st \<Rightarrow>
          (case st_description st of
             None \<Rightarrow> []
           | Some d \<Rightarrow> if d = [] then [] else ''Status: '' @ d @ [nl]))"

definition noOutputMessage :: string where
  "noOutputMessage = ''Program executed successfully with no output.''"

definition outputTextOf :: "judgeResult \<Rightarrow> string option" where
  "outputTextOf r =
     (case appendDecoded ''Output:'' (stdout r)
             (appendDecoded ''Error:'' (stderr r)
               (appendDecoded ''Compilation Output:'' (compile_output r) (Some (statusLine r)))) of
        None \<Rightarrow> None
      | Some text \<Rightarrow> Some (if text = [] then noOutputMessage else text))"

text \<open>\<^verbatim>\<open>stderr || (status?.id > 3) ? 'error' : 'success'\<close>.\<close>

definition statusIdAbove3 :: "judgeResult \<Rightarrow> bool" where
  "statusIdAbove3 r =
     (case status r of
        None \<Rightarrow> False
      | Some st \<Rightarrow> (case st_id st of None \<Rightarrow> False | Some i \<Rightarrow> 3 < i))"

definition statusOf :: "judgeResult \<Rightarrow> tc_status" where
  "statusOf r = (if truthy (stderr r) \<or> statusIdAbove3 r then Error else Success)"

text \<open>The body of the \<^verbatim>\<open>testCases.map\<close> callback, given what its request came to.\<close>

definition failed :: "string \<Rightarrow> testCase \<Rightarrow> testCase" where
  "failed text tc = tc\<lparr>tc_output := Some text, tc_status := Error\<rparr>"

definition runTestCase :: "(engineError \<Rightarrow> string) \<Rightarrow> fetchOutcome \<Rightarrow> testCase \<Rightarrow> testCase" where
  "runTestCase errorMessage outcome tc =
     (case outcome of
        Rejected msg \<Rightarrow> failed (''Error: '' @ msg) tc
      | Resolved data \<Rightarrow>
          if success data
          then (case result data of
                  None \<Rightarrow> failed (''Error: '' @ errorMessage DestructureUndefined) tc
                | Some r \<Rightarrow>
                    (case outputTextOf r of
                       None \<Rightarrow> failed (''Error: '' @ errorMessage InvalidCharacter) tc
                     | Some text \<Rightarrow> tc\<lparr>tc_output := Some text, tc_status := statusOf r\<rparr>))
          else failed (orElse (message data) ''Unknown error'') tc)"

text \<open>\<^verbatim>\<open>saveToHistory\<close> (page.jsx, lines 345-357). \<open>now\<close> is \<^verbatim>\<open>Date.now()\<close>, \<open>isoTime\<close> is
  \<^verbatim>\<open>new Date().toISOString()\<close>; the JSON round trip that copies the files and the results
  leaves values of these types as they are.\<close>

definition saveToHistory :: "int \<Rightarrow> string \<Rightarrow> testCase list \<Rightarrow> session \<Rightarrow> session" where
  "saveToHistory now isoTime results s =
     (let newHistoryItem =
            \<lparr>h_id = now, h_timestamp = isoTime, h_language = language s, h_files = files s,
             h_testCases = results\<rparr>;
          updatedHistory = take 10 (newHistoryItem # history s)
      in s\<lparr>history := updatedHistory\<rparr>)"

text \<open>\<^verbatim>\<open>handleRun\<close> (page.jsx, lines 289-339). \<open>languageIds\<close> is imported from
  \<^verbatim>\<open>@/utils/templates\<close> and is a parameter. \<open>fetch i rq\<close> is what the request \<open>rq\<close> of
  the test case at position \<open>i\<close> comes to; \<^verbatim>\<open>Promise.all\<close> returns the results in the
  order of the test cases, whatever the order of arrival.\<close>

definition languageIdOf :: "(string \<Rightarrow> int option) \<Rightarrow> string \<Rightarrow> int" where
  "languageIdOf languageIds lang =
     (case languageIds lang of None \<Rightarrow> 63 | Some n \<Rightarrow> if n = 0 then 63 else n)"

definition basePayload :: "(string \<Rightarrow> int option) \<Rightarrow> session \<Rightarrow> openFile \<Rightarrow> request" where
  "basePayload languageIds s activeFile =
     \<lparr>rq_files = map (\<lambda>f. (file_name f, file_content f)) (files s),
      rq_fileToCompile = file_name activeFile,
      rq_languageId = languageIdOf languageIds (language s),
      rq_input = []\<rparr>"

definition handleRun ::
  "(string \<Rightarrow> int option) \<Rightarrow> (engineError \<Rightarrow> string) \<Rightarrow> (nat \<Rightarrow> request \<Rightarrow> fetchOutcome)
     \<Rightarrow> int \<Rightarrow> string \<Rightarrow> session \<Rightarrow> session" where
  "handleRun languageIds errorMessage fetch now isoTime s =
     (let s1 = s\<lparr>isLoading := True\<rparr> in
      case find (\<lambda>f. file_id f = activeFileId s) (files s) of
        None \<Rightarrow> s1
      | Some activeFile \<Rightarrow>
          let results =
                map (\<lambda>(i, tc).
                       runTestCase errorMessage
                         (fetch i ((basePayload languageIds s activeFile)\<lparr>rq_input := tc_input tc\<rparr>)) tc)
                  (enumerate 0 (testCases s));
              s2 = s1\<lparr>testCases := results\<rparr>;
              s3 = saveToHistory now isoTime results s2
          in s3\<lparr>isLoading := False\<rparr>)"

text \<open>A sequence of runs, one after the other, each with its own network and clock.\<close>

record runInput =
  ri_fetch :: "nat \<Rightarrow> request \<Rightarrow> fetchOutcome"
  ri_now :: int
  ri_iso :: string

fun runs :: "(string \<Rightarrow> int option) \<Rightarrow> (engineError \<Rightarrow> string) \<Rightarrow> runInput list \<Rightarrow> session \<Rightarrow> session" where
  "runs languageIds errorMessage [] s = s"
| "runs languageIds errorMessage (r # rs) s =
     runs languageIds errorMessage rs
       (handleRun languageIds errorMessage (ri_fetch r) (ri_now r) (ri_iso r) s)"

section \<open>Share links and the start of a session\<close>

text \<open>The object a share token carries, as the mount effect reads it: \<^verbatim>\<open>data.language\<close>,
  \<^verbatim>\<open>data.files\<close>, \<^verbatim>\<open>data.testCases\<close>. A field the object lacks reads as
  \<^verbatim>\<open>undefined\<close>, here \<open>None\<close>. Fields of other types than the session's are not
  represented.\<close>

record shared =
  sh_language :: "string option"
  sh_files :: "openFile list option"
  sh_testCases :: "testCase list option"

text \<open>\<^verbatim>\<open>JSON.parse(decompressed)\<close>: a syntax error, the value \<^verbatim>\<open>null\<close>, or a value
  whose three fields read as in \<open>shared\<close>.\<close>

datatype parsed = SyntaxError | ParsedNull | Parsed shared

text \<open>\<^verbatim>\<open>handleShare\<close> (page.jsx, lines 267-284). \<^verbatim>\<open>JSON.stringify\<close> and
  \<^verbatim>\<open>LZString.compressToEncodedURIComponent\<close> are parameters here (the section on JSON
  text below gives the first; the second belongs to a library outside the repository);
  the handler's result is the URL it copies to the clipboard.\<close>

definition sharedOf :: "session \<Rightarrow> shared" where
  "sharedOf s =
     \<lparr>sh_language = Some (language s), sh_files = Some (files s), sh_testCases = Some (testCases s)\<rparr>"

definition shareToken :: "(shared \<Rightarrow> string) \<Rightarrow> (string \<Rightarrow> string) \<Rightarrow> session \<Rightarrow> string" where
  "shareToken stringify compress s = compress (stringify (sharedOf s))"

definition handleShare :: "(shared \<Rightarrow> string) \<Rightarrow> (string \<Rightarrow> string) \<Rightarrow> string \<Rightarrow> session \<Rightarrow> string" where
  "handleShare stringify compress pageUrl s = pageUrl @ ''?data='' @ shareToken stringify compress s"

text \<open>What \<^verbatim>\<open>localStorage\<close> holds at mount. A key that is absent or holds the empty
  string is \<open>None\<close> for the JSON-valued keys, which are given as the values their text
  parses to.\<close>

record storage =
  stored_theme :: "string option"
  stored_language :: "string option"
  stored_files :: "openFile list option"
  stored_activeFileId :: "string option"
  stored_testCases :: "testCase list option"
  stored_history :: "historyItem list option"
  stored_stdin :: "string option"

text \<open>The state cells during the mount effect. A setter called with \<^verbatim>\<open>undefined\<close>
  leaves \<open>None\<close> in \<open>m_language\<close>, \<open>m_files\<close> or \<open>m_testCases\<close>. \<open>m_logged\<close> records the call
  of \<^verbatim>\<open>console.error\<close>, \<open>m_fromShare\<close> the early return after a share token was applied.\<close>

record mountState =
  m_theme :: string
  m_language :: "string option"
  m_files :: "openFile list option"
  m_activeFileId :: string
  m_testCases :: "testCase list option"
  m_history :: "historyItem list"
  m_stdin :: string
  m_logged :: bool
  m_fromShare :: bool

definition initialMount :: mountState where
  "initialMount =
     \<lparr>m_theme = ''dark'', m_language = Some ''javascript'', m_files = Some [initialFile],
      m_activeFileId = ''1'', m_testCases = Some [initialTestCase], m_history = [], m_stdin = [],
      m_logged = False, m_fromShare = False\<rparr>"

text \<open>The restore from storage (page.jsx, lines 94-121).\<close>

definition restoreFromStorage :: "storage \<Rightarrow> mountState \<Rightarrow> mountState" where
  "restoreFromStorage st m =
     (let m1 = m\<lparr>m_theme := orElse (stored_theme st) ''dark''\<rparr>;
          m2 = (if truthy (stored_language st) then m1\<lparr>m_language := stored_language st\<rparr> else m1);
          m3 = (case stored_files st of None \<Rightarrow> m2 | Some fs \<Rightarrow> m2\<lparr>m_files := Some fs\<rparr>);
          m4 = (case stored_activeFileId st of
                  None \<Rightarrow> m3
                | Some a \<Rightarrow> if a = [] then m3 else m3\<lparr>m_activeFileId := a\<rparr>);
          m5 = (case stored_testCases st of None \<Rightarrow> m4 | Some tcs \<Rightarrow> m4\<lparr>m_testCases := Some tcs\<rparr>);
          m6 = (case stored_history st of None \<Rightarrow> m5 | Some h \<Rightarrow> m5\<lparr>m_history := h\<rparr>)
      in (case stored_stdin st of
            None \<Rightarrow> m6
          | Some i \<Rightarrow> if i = [] then m6 else m6\<lparr>m_stdin := i\<rparr>))"

text \<open>The mount effect (page.jsx, lines 68-123). \<open>sharedData\<close> is
  \<^verbatim>\<open>params.get('data')\<close>; \<open>decompress\<close> is
  \<^verbatim>\<open>LZString.decompressFromEncodedURIComponent\<close> (\<open>None\<close> for \<^verbatim>\<open>null\<close>) and \<open>parse\<close> is
  \<^verbatim>\<open>JSON.parse\<close>, both parameters. The setters run in the order of the source; reading
  \<^verbatim>\<open>data.files[0]\<close> raises when \<^verbatim>\<open>data.files\<close> is \<^verbatim>\<open>undefined\<close>, after the three
  setters before it have been called.\<close>

definition firstFileId :: "openFile list \<Rightarrow> string" where
  "firstFileId fs = (case fs of [] \<Rightarrow> ''1'' | f # _ \<Rightarrow> if file_id f = [] then ''1'' else file_id f)"

definition mountEffect ::
  "(string \<Rightarrow> string option) \<Rightarrow> (string \<Rightarrow> parsed) \<Rightarrow> string option \<Rightarrow> storage \<Rightarrow> mountState" where
  "mountEffect decompress parse sharedData st =
     (case sharedData of
        None \<Rightarrow> restoreFromStorage st initialMount
      | Some token \<Rightarrow>
          if token = [] then restoreFromStorage st initialMount
          else
            (case decompress token of
               None \<Rightarrow> restoreFromStorage st initialMount
             | Some decompressed \<Rightarrow>
                 if decompressed = [] then restoreFromStorage st initialMount
                 else
                   (case parse decompressed of
                      SyntaxError \<Rightarrow> restoreFromStorage st (initialMount\<lparr>m_logged := True\<rparr>)
                    | ParsedNull \<Rightarrow> restoreFromStorage st (initialMount\<lparr>m_logged := True\<rparr>)
                    | Parsed data \<Rightarrow>
                        let m1 = initialMount\<lparr>m_language := sh_language data,
                                   m_files := sh_files data, m_testCases := sh_testCases data\<rparr>
                        in (case sh_files data of
                              None \<Rightarrow> restoreFromStorage st (m1\<lparr>m_logged := True\<rparr>)
                            | Some fs \<Rightarrow> m1\<lparr>m_activeFileId := firstFileId fs, m_fromShare := True\<rparr>))))"

text \<open>The session a mount leaves when every cell holds a value.\<close>

definition sessionOfMount :: "mountState \<Rightarrow> session option" where
  "sessionOfMount m =
     (case (m_language m, m_files m, m_testCases m) of
        (Some l, Some fs, Some tcs) \<Rightarrow>
          Some \<lparr>theme = m_theme m, language = l, files = fs, activeFileId = m_activeFileId m,
                testCases = tcs, history = m_history m, isLoading = False, stdin = m_stdin m\<rparr>
      | _ \<Rightarrow> None)"

section \<open>JSON text\<close>

text \<open>\<^verbatim>\<open>JSON.stringify(data)\<close> in \<^verbatim>\<open>handleShare\<close> (page.jsx, line 274) and
  \<^verbatim>\<open>JSON.parse(decompressed)\<close> in the mount effect (line 79) are built into the engine.
  They are modelled here on the values a session subset consists of: strings of
  characters below 256, integers, \<^verbatim>\<open>null\<close>, booleans, arrays and objects. An integer is
  written in decimal, as the engine writes the ids of test cases (1, or a clock value in
  milliseconds). A number written with a fraction or an exponent is kept as its text.\<close>

datatype json =
    JNull
  | JBool bool
  | JInt int
  | JNumber string
  | JString string
  | JArray "json list"
  | JObject "(string \<times> json) list"

definition dquote :: char where
  "dquote = CHR 0x22"

definition backslash :: char where
  "backslash = CHR 0x5C"

definition hex_digit :: "int \<Rightarrow> char" where
  "hex_digit d = (if d < 10 then char_of (48 + d) else char_of (87 + d))"

definition hex_value :: "char \<Rightarrow> int option" where
  "hex_value c =
     (let n = (of_char c :: int) in
      if 48 \<le> n \<and> n \<le> 57 then Some (n - 48)
      else if 97 \<le> n \<and> n \<le> 102 then Some (n - 87)
      else if 65 \<le> n \<and> n \<le> 70 then Some (n - 55)
      else None)"

text \<open>The text of one character inside a JSON string, as \<^verbatim>\<open>JSON.stringify\<close> writes it:
  the double quote and the backslash get a backslash, the control characters their
  short escape or \<^verbatim>\<open>\u00xx\<close>, every other character stands for itself.\<close>

definition escape_char :: "char \<Rightarrow> string" where
  "escape_char c =
     (let n = (of_char c :: int) in
      if n = 8 then [backslash, CHR ''b'']
      else if n = 9 then [backslash, CHR ''t'']
      else if n = 10 then [backslash, CHR ''n'']
      else if n = 12 then [backslash, CHR ''f'']
      else if n = 13 then [backslash, CHR ''r'']
      else if n = 34 then [backslash, dquote]
      else if n = 92 then [backslash, backslash]
      else if n < 32 then [backslash, CHR ''u'', CHR ''0'', CHR ''0'', hex_digit (n div 16), hex_digit (n mod 16)]
      else [c])"

definition quote :: "string \<Rightarrow> string" where
  "quote s = dquote # concat (map escape_char s) @ [dquote]"

fun join :: "string list \<Rightarrow> string" where
  "join [] = []"
| "join [x] = x"
| "join (x # y # r) = x @ '','' @ join (y # r)"

fun print_json :: "json \<Rightarrow> string" where
  "print_json JNull = ''null''"
| "print_json (JBool b) = (if b then ''true'' else ''false'')"
| "print_json (JInt i) = toString i"
| "print_json (JNumber lit) = lit"
| "print_json (JString s) = quote s"
| "print_json (JArray vs) = ''['' @ join (map print_json vs) @ '']''"
| "print_json (JObject kvs) =
     ''{'' @ join (map (\<lambda>kv. quote (fst kv) @ '':'' @ print_json (snd kv)) kvs) @ ''}''"

text \<open>The parser. White space is skipped where the grammar allows it.\<close>

definition is_json_space :: "char \<Rightarrow> bool" where
  "is_json_space c = ((of_char c :: int) \<in> {9, 10, 13, 32})"

definition skip_ws :: "string \<Rightarrow> string" where
  "skip_ws s = dropWhile is_json_space s"

definition unescape :: "char \<Rightarrow> char option" where
  "unescape e =
     (if e = dquote then Some dquote
      else if e = backslash then Some backslash
      else if e = CHR ''/'' then Some CHR ''/''
      else if e = CHR ''b'' then Some (CHR 0x08)
      else if e = CHR ''f'' then Some (CHR 0x0C)
      else if e = CHR ''n'' then Some (CHR 0x0A)
      else if e = CHR ''r'' then Some (CHR 0x0D)
      else if e = CHR ''t'' then Some (CHR 0x09)
      else None)"

definition hex4 :: "char \<Rightarrow> char \<Rightarrow> char \<Rightarrow> char \<Rightarrow> int option" where
  "hex4 a b c d =
     (case (hex_value a, hex_value b, hex_value c, hex_value d) of
        (Some w, Some x, Some y, Some z) \<Rightarrow> Some (((w * 16 + x) * 16 + y) * 16 + z)
      | _ \<Rightarrow> None)"

definition cons_char :: "char \<Rightarrow> (string \<times> string) option \<Rightarrow> (string \<times> string) option" where
  "cons_char c res = (case res of None \<Rightarrow> None | Some (s, rest) \<Rightarrow> Some (c # s, rest))"

text \<open>The characters of a string up to its closing quote, and the text after it. A code
  unit of 256 or more has no character in this model and ends the parse.\<close>

fun parse_chars :: "string \<Rightarrow> (string \<times> string) option" where
  "parse_chars [] = None"
| "parse_chars (c # r) =
     (if c = dquote then Some ([], r)
      else if c = backslash then
        (case r of
           [] \<Rightarrow> None
         | e # r1 \<Rightarrow>
             if e = CHR ''u'' then
               (case r1 of
                  h1 # h2 # h3 # h4 # r2 \<Rightarrow>
                    (case hex4 h1 h2 h3 h4 of
                       None \<Rightarrow> None
                     | Some code \<Rightarrow> if code < 256 then cons_char (char_of code) (parse_chars r2) else None)
                | _ \<Rightarrow> None)
             else (case unescape e of None \<Rightarrow> None | Some ch \<Rightarrow> cons_char ch (parse_chars r1)))
      else if (of_char c :: int) < 32 then None
      else cons_char c (parse_chars r))"

definition is_digit :: "char \<Rightarrow> bool" where
  "is_digit c = (48 \<le> (of_char c :: int) \<and> (of_char c :: int) \<le> 57)"

definition digits_value :: "string \<Rightarrow> int" where
  "digits_value ds = foldl (\<lambda>a c. a * 10 + (of_char c - 48)) 0 ds"

definition parse_fraction :: "string \<Rightarrow> (string \<times> string) option" where
  "parse_fraction s =
     (case s of
        [] \<Rightarrow> Some ([], s)
      | c # r \<Rightarrow>
          if c = CHR ''.'' then
            (let ds = takeWhile is_digit r in
             if ds = [] then None else Some (c # ds, drop (length ds) r))
          else Some ([], s))"

definition parse_exponent :: "string \<Rightarrow> (string \<times> string) option" where
  "parse_exponent s =
     (case s of
        [] \<Rightarrow> Some ([], s)
      | c # r \<Rightarrow>
          if c = CHR ''e'' \<or> c = CHR ''E'' then
            (let sg = (case r of [] \<Rightarrow> [] | d # r' \<Rightarrow> if d = CHR ''+'' \<or> d = CHR ''-'' then [d] else []);
                 r1 = drop (length sg) r;
                 ds = takeWhile is_digit r1
             in if ds = [] then None else Some (c # sg @ ds, drop (length ds) r1))
          else Some ([], s))"

text \<open>A number: an optional minus sign, an integer part without leading zeros, then an
  optional fraction and an optional exponent.\<close>

definition integer_part :: "string \<Rightarrow> string" where
  "integer_part s =
     (case s of [] \<Rightarrow> [] | c # r \<Rightarrow> if c = CHR ''0'' then [c] else takeWhile is_digit s)"

definition parse_unsigned :: "bool \<Rightarrow> string \<Rightarrow> string \<Rightarrow> (json \<times> string) option" where
  "parse_unsigned neg whole s1 =
     (let ip = integer_part s1;
          s2 = drop (length ip) s1
      in if ip = [] then None
         else (case parse_fraction s2 of
                 None \<Rightarrow> None
               | Some (fr, s3) \<Rightarrow>
                   (case parse_exponent s3 of
                      None \<Rightarrow> None
                    | Some (ex, s4) \<Rightarrow>
                        if fr = [] \<and> ex = []
                        then Some (JInt (if neg then - digits_value ip else digits_value ip), s4)
                        else Some (JNumber (take (length whole - length s4) whole), s4))))"

definition parse_number :: "string \<Rightarrow> (json \<times> string) option" where
  "parse_number s =
     (case s of
        [] \<Rightarrow> None
      | c # r \<Rightarrow> if c = CHR ''-'' then parse_unsigned True s r else parse_unsigned False s s)"

fun parse_value :: "nat \<Rightarrow> string \<Rightarrow> (json \<times> string) option"
  and parse_elements :: "nat \<Rightarrow> string \<Rightarrow> (json list \<times> string) option"
  and parse_members :: "nat \<Rightarrow> string \<Rightarrow> ((string \<times> json) list \<times> string) option" where
  "parse_value 0 s = None"
| "parse_value (Suc n) s =
     (case skip_ws s of
        [] \<Rightarrow> None
      | c # r \<Rightarrow>
          if c = CHR ''n'' then (if take 3 r = ''ull'' then Some (JNull, drop 3 r) else None)
          else if c = CHR ''t'' then (if take 3 r = ''rue'' then Some (JBool True, drop 3 r) else None)
          else if c = CHR ''f'' then (if take 4 r = ''alse'' then Some (JBool False, drop 4 r) else None)
          else if c = dquote then
            (case parse_chars r of None \<Rightarrow> None | Some (str, r1) \<Rightarrow> Some (JString str, r1))
          else if c = CHR ''['' then
            (case skip_ws r of
               [] \<Rightarrow> None
             | d # r1 \<Rightarrow>
                 if d = CHR '']'' then Some (JArray [], r1)
                 else (case parse_elements n r of None \<Rightarrow> None | Some (vs, r2) \<Rightarrow> Some (JArray vs, r2)))
          else if c = CHR ''{'' then
            (case skip_ws r of
               [] \<Rightarrow> None
             | d # r1 \<Rightarrow>
                 if d = CHR ''}'' then Some (JObject [], r1)
                 else (case parse_members n r of None \<Rightarrow> None | Some (kvs, r2) \<Rightarrow> Some (JObject kvs, r2)))
          else parse_number (c # r))"
| "parse_elements 0 s = None"
| "parse_elements (Suc n) s =
     (case parse_value n s of
        None \<Rightarrow> None
      | Some (v, r) \<Rightarrow>
          (case skip_ws r of
             [] \<Rightarrow> None
           | d # r1 \<Rightarrow>
               if d = CHR '','' then
                 (case parse_elements n r1 of None \<Rightarrow> None | Some (vs, r2) \<Rightarrow> Some (v # vs, r2))
               else if d = CHR '']'' then Some ([v], r1)
               else None))"
| "parse_members 0 s = None"
| "parse_members (Suc n) s =
     (case skip_ws s of
        [] \<Rightarrow> None
      | q # r \<Rightarrow>
          if q \<noteq> dquote then None
          else
            (case parse_chars r of
               None \<Rightarrow> None
             | Some (k, r1) \<Rightarrow>
                 (case skip_ws r1 of
                    [] \<Rightarrow> None
                  | col # r2 \<Rightarrow>
                      if col \<noteq> CHR '':'' then None
                      else
                        (case parse_value n r2 of
                           None \<Rightarrow> None
                         | Some (v, r3) \<Rightarrow>
                             (case skip_ws r3 of
                                [] \<Rightarrow> None
                              | d # r4 \<Rightarrow>
                                  if d = CHR '','' then
                                    (case parse_members n r4 of
                                       None \<Rightarrow> None
                                     | Some (kvs, r5) \<Rightarrow> Some ((k, v) # kvs, r5))
                                  else if d = CHR ''}'' then Some ([(k, v)], r4)
                                  else None)))))"

text \<open>The whole text is one value, with white space around it at most. Every call of
  the parser consumes a character or follows one that did, so twice the length of the
  text bounds the depth of the calls.\<close>

definition parse_json :: "string \<Rightarrow> json option" where
  "parse_json text =
     (case parse_value (Suc (2 * length text)) text of
        None \<Rightarrow> None
      | Some (v, r) \<Rightarrow> if skip_ws r = [] then Some v else None)"

text \<open>A session subset as a JSON value and back. The keys of a file and of a test case
  stand in the order in which the handlers create them. Reading a value looks each key
  up (the last one of a repeated key counts); a field that is absent reads as \<open>None\<close>,
  and so does, outside the session values this model covers, a field of another type.\<close>

definition statusText :: "tc_status \<Rightarrow> string" where
  "statusText st = (case st of Pending \<Rightarrow> ''pending'' | Success \<Rightarrow> ''success'' | Error \<Rightarrow> ''error'')"

definition fileJson :: "openFile \<Rightarrow> json" where
  "fileJson f =
     JObject [(''id'', JString (file_id f)), (''name'', JString (file_name f)),
              (''content'', JString (file_content f)), (''language'', JString (file_language f))]"

definition testCaseJson :: "testCase \<Rightarrow> json" where
  "testCaseJson tc =
     JObject [(''id'', JInt (tc_id tc)), (''input'', JString (tc_input tc)),
              (''output'', (case tc_output tc of None \<Rightarrow> JNull | Some out \<Rightarrow> JString out)),
              (''status'', JString (statusText (tc_status tc)))]"

definition toJson :: "shared \<Rightarrow> json" where
  "toJson data =
     JObject
       ((case sh_language data of None \<Rightarrow> [] | Some l \<Rightarrow> [(''language'', JString l)]) @
        (case sh_files data of None \<Rightarrow> [] | Some fs \<Rightarrow> [(''files'', JArray (map fileJson fs))]) @
        (case sh_testCases data of
           None \<Rightarrow> []
         | Some tcs \<Rightarrow> [(''testCases'', JArray (map testCaseJson tcs))]))"

definition lookupField :: "string \<Rightarrow> json \<Rightarrow> json option" where
  "lookupField key v = (case v of JObject kvs \<Rightarrow> map_of (rev kvs) key | _ \<Rightarrow> None)"

definition stringField :: "string \<Rightarrow> json \<Rightarrow> string option" where
  "stringField key v = (case lookupField key v of Some (JString s) \<Rightarrow> Some s | _ \<Rightarrow> None)"

definition fileOfJson :: "json \<Rightarrow> openFile option" where
  "fileOfJson v =
     (case (stringField ''id'' v, stringField ''name'' v, stringField ''content'' v,
            stringField ''language'' v) of
        (Some i, Some n, Some c, Some l) \<Rightarrow>
          Some \<lparr>file_id = i, file_name = n, file_content = c, file_language = l\<rparr>
      | _ \<Rightarrow> None)"

definition statusOfText :: "string \<Rightarrow> tc_status option" where
  "statusOfText t =
     (if t = ''pending'' then Some Pending
      else if t = ''success'' then Some Success
      else if t = ''error'' then Some Error
      else None)"

definition testCaseOfJson :: "json \<Rightarrow> testCase option" where
  "testCaseOfJson v =
     (case (lookupField ''id'' v, stringField ''input'' v, lookupField ''output'' v, stringField ''status'' v) of
        (Some (JInt i), Some inp, Some out, Some st) \<Rightarrow>
          (case (statusOfText st, out) of
             (Some stat, JNull) \<Rightarrow>
               Some \<lparr>tc_id = i, tc_input = inp, tc_output = None, tc_status = stat\<rparr>
           | (Some stat, JString txt) \<Rightarrow>
               Some \<lparr>tc_id = i, tc_input = inp, tc_output = Some txt, tc_status = stat\<rparr>
           | _ \<Rightarrow> None)
      | _ \<Rightarrow> None)"

definition fromJson :: "json \<Rightarrow> shared" where
  "fromJson v =
     \<lparr>sh_language = stringField ''language'' v,
      sh_files = (case lookupField ''files'' v of Some (JArray vs) \<Rightarrow> those (map fileOfJson vs) | _ \<Rightarrow> None),
      sh_testCases =
        (case lookupField ''testCases'' v of Some (JArray vs) \<Rightarrow> those (map testCaseOfJson vs) | _ \<Rightarrow> None)\<rparr>"

definition JSON_stringify :: "shared \<Rightarrow> string" where
  "JSON_stringify data = print_json (toJson data)"

definition JSON_parse :: "string \<Rightarrow> parsed" where
  "JSON_parse text =
     (case parse_json text of
        None \<Rightarrow> SyntaxError
      | Some JNull \<Rightarrow> ParsedNull
      | Some v \<Rightarrow> Parsed (fromJson v))"

text \<open>The values that hold no number with a fraction or an exponent.\<close>

fun integral :: "json \<Rightarrow> bool" where
  "integral (JNumber lit) = False"
| "integral (JArray vs) = list_all integral vs"
| "integral (JObject kvs) = list_all (\<lambda>kv. integral (snd kv)) kvs"
| "integral v = True"

text \<open>What may follow a value inside a JSON text, and the characters a value may start
  with.\<close>

definition delimited :: "string \<Rightarrow> bool" where
  "delimited rest = (rest = [] \<or> hd rest = CHR '','' \<or> hd rest = CHR '']'' \<or> hd rest = CHR ''}'')"

definition value_start :: "char \<Rightarrow> bool" where
  "value_start c =
     (c = CHR ''n'' \<or> c = CHR ''t'' \<or> c = CHR ''f'' \<or> c = dquote \<or> c = CHR ''['' \<or> c = CHR ''{''
      \<or> c = CHR ''-'' \<or> is_digit c)"

section \<open>Notions used in the statements\<close>

text \<open>The active id resolves to a file: \<^verbatim>\<open>files.find(f => f.id === activeFileId)\<close> finds
  one.\<close>

definition resolves :: "session \<Rightarrow> bool" where
  "resolves s = (find (\<lambda>f. file_id f = activeFileId s) (files s) \<noteq> None)"

text \<open>A sequence of \<^verbatim>\<open>handleCreateFile\<close> calls, each with the clock value at the call and
  the name of the new file.\<close>

fun createFiles :: "(string \<Rightarrow> string option) \<Rightarrow> (int \<times> string) list \<Rightarrow> session \<Rightarrow> session" where
  "createFiles getTemplateForFile [] s = s"
| "createFiles getTemplateForFile ((now, fileName) # cs) s =
     createFiles getTemplateForFile cs (handleCreateFile getTemplateForFile now fileName s)"

text \<open>The report as the specification words it: the status line when a description is
  present, then the decoded compilation output, error output and standard output, each
  when its field is non-empty, and the fixed message when none of the four is present.\<close>

definition describedStatus :: "judgeResult \<Rightarrow> string option" where
  "describedStatus r =
     (case status r of
        None \<Rightarrow> None
      | Some st \<Rightarrow> (case st_description st of None \<Rightarrow> None | Some d \<Rightarrow> if d = [] then None else Some d))"

definition decodedSection :: "string \<Rightarrow> string option \<Rightarrow> string" where
  "decodedSection label field =
     (case field of
        None \<Rightarrow> []
      | Some enc \<Rightarrow>
          if enc = [] then []
          else (case atob enc of None \<Rightarrow> [] | Some dec \<Rightarrow> label @ [nl] @ dec @ [nl]))"

definition reportOf :: "judgeResult \<Rightarrow> string" where
  "reportOf r =
     (if describedStatus r = None \<and> \<not> truthy (compile_output r) \<and> \<not> truthy (stderr r)
         \<and> \<not> truthy (stdout r)
      then noOutputMessage
      else (case describedStatus r of None \<Rightarrow> [] | Some d \<Rightarrow> ''Status: '' @ d @ [nl])
           @ decodedSection ''Compilation Output:'' (compile_output r)
           @ decodedSection ''Error:'' (stderr r)
           @ decodedSection ''Output:'' (stdout r))"

text \<open>A field is decodable when it is absent, empty, or text that \<^verbatim>\<open>atob\<close> accepts.\<close>

definition decodes :: "string option \<Rightarrow> bool" where
  "decodes field = (case field of None \<Rightarrow> True | Some enc \<Rightarrow> enc = [] \<or> atob enc \<noteq> None)"

section \<open>Sample inputs\<close>


text \<open>Eleven runs at the clock values 1 to 11 with the network down, and the session
  after the first ten of them.\<close>

definition offline :: "nat \<Rightarrow> request \<Rightarrow> fetchOutcome" where
  "offline i rq = Rejected ''Failed to fetch''"

definition runAt :: "int \<Rightarrow> runInput" where
  "runAt n = \<lparr>ri_fetch = offline, ri_now = n, ri_iso = ''t''\<rparr>"

definition elevenRuns :: "runInput list" where
  "elevenRuns = map runAt [1, 2, 3, 4, 5, 6, 7, 8, 9, 10, 11]"

definition noIds :: "string \<Rightarrow> int option" where
  "noIds lang = None"

definition noMessage :: "engineError \<Rightarrow> string" where
  "noMessage e = []"

definition tenRunsSession :: session where
  "tenRunsSession = runs noIds noMessage (take 10 elevenRuns) initialSession"

text \<open>The answer of the specification's example: status 3 "Accepted" and the standard
  output \<^verbatim>\<open>NQo=\<close>, the base64 text of \<^verbatim>\<open>5\<close> and a line feed.\<close>

definition acceptedFive :: responseData where
  "acceptedFive =
     \<lparr>success = True, message = None,
      result = Some \<lparr>stdout = Some ''NQo='', stderr = None, compile_output = None,
                     status = Some \<lparr>st_id = Some 3, st_description = Some ''Accepted''\<rparr>\<rparr>\<rparr>"

text \<open>Three test cases; the request of the second one is rejected, the two others get
  the example answer.\<close>

definition threeCases :: session where
  "threeCases =
     initialSession\<lparr>testCases :=
       [\<lparr>tc_id = 1, tc_input = ''a'', tc_output = None, tc_status = Pending\<rparr>,
        \<lparr>tc_id = 2, tc_input = ''b'', tc_output = None, tc_status = Pending\<rparr>,
        \<lparr>tc_id = 3, tc_input = ''c'', tc_output = None, tc_status = Pending\<rparr>]\<rparr>"

definition secondFails :: "nat \<Rightarrow> request \<Rightarrow> fetchOutcome" where
  "secondFails i rq = (if i = 1 then Rejected ''Failed to fetch'' else Resolved acceptedFive)"

text \<open>The session a share link with an empty list of files leaves: no file, and the
  active id \<^verbatim>\<open>"1"\<close>.\<close>

definition noFilesSession :: session where
  "noFilesSession = initialSession\<lparr>files := []\<rparr>"

text \<open>A template table with an entry for Python only, for the instances below.\<close>

definition pythonOnly :: "string \<Rightarrow> string option" where
  "pythonOnly lang = (if lang = ''python'' then Some ''print(1)'' else None)"

text \<open>The initial session with its file renamed to \<^verbatim>\<open>my.test.js\<close>, a name the tabs
  accept.\<close>

definition multiDotSession :: session where
  "multiDotSession = initialSession\<lparr>files := [initialFile\<lparr>file_name := ''my.test.js''\<rparr>]\<rparr>"

text \<open>A \<^verbatim>\<open>getTemplateForFile\<close> that knows no template.\<close>

definition noTemplate :: "string \<Rightarrow> string option" where
  "noTemplate fileName = None"

text \<open>At the instance of claim C8: a codec that leaves the text as it is, a parser that
  reads an object with the single field \<^verbatim>\<open>language\<close>, and a storage with no key set.\<close>

definition plainDecompress :: "string \<Rightarrow> string option" where
  "plainDecompress token = Some token"

definition languageOnly :: shared where
  "languageOnly = \<lparr>sh_language = Some ''python'', sh_files = None, sh_testCases = None\<rparr>"

definition languageOnlyParse :: "string \<Rightarrow> parsed" where
  "languageOnlyParse text = Parsed languageOnly"

definition emptyStorage :: storage where
  "emptyStorage =
     \<lparr>stored_theme = None, stored_language = None, stored_files = None,
      stored_activeFileId = None, stored_testCases = None, stored_history = None,
      stored_stdin = None\<rparr>"

text \<open>A stand-in for the compression library at the instance below: every character as
  two hexadecimal digits, and back.\<close>

definition hexCompress :: "string \<Rightarrow> string" where
  "hexCompress t =
     concat (map (\<lambda>c. [hex_digit ((of_char c :: int) div 16), hex_digit ((of_char c :: int) mod 16)]) t)"

fun hexDecompress :: "string \<Rightarrow> string option" where
  "hexDecompress [] = Some []"
| "hexDecompress [a] = None"
| "hexDecompress (a # b # r) =
     (case (hex_value a, hex_value b, hexDecompress r) of
        (Some x, Some y, Some s) \<Rightarrow> Some (char_of (x * 16 + y) # s)
      | _ \<Rightarrow> None)"

text \<open>A session to share: Python, two files whose contents hold a line feed, a tab, double
  quotes and a backslash, and two test cases, one of them run. And a storage that holds
  another session.\<close>

definition pythonSession :: session where
  "pythonSession =
     initialSession
       \<lparr>language := ''python'',
        files :=
          [\<lparr>file_id = ''1'', file_name = ''main.py'',
            file_content = ''print('' @ [dquote] @ ''a'' @ [backslash] @ ''n'' @ [dquote] @ '')'' @ [nl],
            file_language = ''python''\<rparr>,
           \<lparr>file_id = ''1730000000123'', file_name = ''util.py'',
            file_content = ''def f():'' @ [nl, CHR 0x09] @ ''return 1'',
            file_language = ''python''\<rparr>],
        activeFileId := ''1730000000123'',
        testCases :=
          [\<lparr>tc_id = 1, tc_input = ''5'', tc_output = Some (''Output:'' @ [nl] @ ''5''), tc_status = Success\<rparr>,
           \<lparr>tc_id = 1730000000456, tc_input = [], tc_output = None, tc_status = Pending\<rparr>]\<rparr>"

definition javaStorage :: storage where
  "javaStorage =
     \<lparr>stored_theme = Some ''light'', stored_language = Some ''java'',
      stored_files = Some [\<lparr>file_id = ''7'', file_name = ''Main.java'', file_content = ''class Main {}'',
                             file_language = ''java''\<rparr>],
      stored_activeFileId = Some ''7'', stored_testCases = Some [], stored_history = None,
      stored_stdin = None\<rparr>"



section \<open>Deleting a file\<close>












section \<open>The execution history\<close>


lemma take_append_take: "take n (xs @ take n ys) = take n (xs @ ys)"
  by (simp add: min_def)

lemma saveToHistory_history:
  "history (saveToHistory now t results s) =
     take 10 (\<lparr>h_id = now, h_timestamp = t, h_language = language s, h_files = files s,
               h_testCases = results\<rparr> # history s)"
  by (simp add: saveToHistory_def Let_def)

lemma saveToHistory_frame:
  "saveToHistory now t results s = s\<lparr>history := history (saveToHistory now t results s)\<rparr>"
  by (simp add: saveToHistory_def Let_def)

lemma handleRun_ids:
  assumes "resolves s"
  shows "map h_id (history (handleRun L E fetch now t s)) = take 10 (now # map h_id (history s))"
proof -
  obtain a where a: "find (\<lambda>f. file_id f = activeFileId s) (files s) = Some a"
    using assms by (auto simp: resolves_def)
  show ?thesis
    by (simp add: handleRun_def a Let_def saveToHistory_def take_map)
qed

lemma handleRun_frame:
  "files (handleRun L E fetch now t s) = files s \<and>
   activeFileId (handleRun L E fetch now t s) = activeFileId s \<and>
   language (handleRun L E fetch now t s) = language s"
  by (simp add: handleRun_def Let_def saveToHistory_def split: option.splits)

lemma handleRun_resolves: "resolves s \<Longrightarrow> resolves (handleRun L E fetch now t s)"
  by (simp add: resolves_def handleRun_frame)

lemma runs_ids:
  "resolves s \<Longrightarrow> length (history s) \<le> 10 \<Longrightarrow>
   map h_id (history (runs L E rs s)) = take 10 (rev (map ri_now rs) @ map h_id (history s))"
proof (induction rs arbitrary: s)
  case Nil
  then show ?case by simp
next
  case (Cons r rs)
  let ?s1 = "handleRun L E (ri_fetch r) (ri_now r) (ri_iso r) s"
  have ids1: "map h_id (history ?s1) = take 10 (ri_now r # map h_id (history s))"
    using Cons.prems(1) by (rule handleRun_ids)
  then have "length (map h_id (history ?s1)) \<le> 10" by simp
  then have len1: "length (history ?s1) \<le> 10" by simp
  have "map h_id (history (runs L E rs ?s1)) = take 10 (rev (map ri_now rs) @ map h_id (history ?s1))"
    using Cons.IH [OF handleRun_resolves [OF Cons.prems(1)] len1] .
  also have "\<dots> = take 10 (rev (map ri_now rs) @ (ri_now r # map h_id (history s)))"
    by (simp only: ids1 take_append_take)
  finally show ?case by simp
qed

text \<open>Claim C2. \<^verbatim>\<open>saveToHistory\<close> never leaves more than 10 entries, whatever the
  history was. On a history of 10 entries it puts the new entry first and drops the last one,
  which is the oldest (entries are only ever added at the front). For a sequence of runs
  from a session whose active file resolves and whose history has at most 10 entries, the
  history stays within 10 entries and the ids of its entries are the clock values of the
  runs, newest first, followed by the ids it had, cut at 10. After 11 runs at distinct
  clock values from an empty history, the entries are those of runs 2 to 11, newest
  first, and the entry of the first run is gone.\<close>

theorem history_bounded:
  "length (history (saveToHistory now t results s)) \<le> 10 \<and>
   (length (history s) = 10 \<longrightarrow>
      history (saveToHistory now t results s) =
        \<lparr>h_id = now, h_timestamp = t, h_language = language s, h_files = files s,
         h_testCases = results\<rparr> # butlast (history s)) \<and>
   (resolves s \<and> length (history s) \<le> 10 \<longrightarrow>
      length (history (runs L E rs s)) \<le> 10 \<and>
      map h_id (history (runs L E rs s)) = take 10 (rev (map ri_now rs) @ map h_id (history s))) \<and>
   (resolves s \<and> history s = [] \<and> length rs = 11 \<and> distinct (map ri_now rs) \<longrightarrow>
      map h_id (history (runs L E rs s)) = rev (map ri_now (tl rs)) \<and>
      ri_now (hd rs) \<notin> h_id ` set (history (runs L E rs s)))"
proof (intro conjI impI)
  show "length (history (saveToHistory now t results s)) \<le> 10"
    by (simp add: saveToHistory_history)
next
  assume "length (history s) = 10"
  then have "take 9 (history s) = butlast (history s)" by (simp add: butlast_conv_take)
  then show "history (saveToHistory now t results s) =
        \<lparr>h_id = now, h_timestamp = t, h_language = language s, h_files = files s,
         h_testCases = results\<rparr> # butlast (history s)"
    by (simp add: saveToHistory_history)
next
  assume a: "resolves s \<and> length (history s) \<le> 10"
  then show ids: "map h_id (history (runs L E rs s)) = take 10 (rev (map ri_now rs) @ map h_id (history s))"
    by (simp add: runs_ids)
  then have "length (map h_id (history (runs L E rs s))) \<le> 10" by simp
  then show "length (history (runs L E rs s)) \<le> 10" by simp
next
  assume a: "resolves s \<and> history s = [] \<and> length rs = 11 \<and> distinct (map ri_now rs)"
  then obtain r rest where rs: "rs = r # rest" and len: "length rest = 10"
    by (cases rs) auto
  have "map h_id (history (runs L E rs s)) = take 10 (rev (map ri_now rs))"
    using a by (simp add: runs_ids)
  then show ids: "map h_id (history (runs L E rs s)) = rev (map ri_now (tl rs))"
    using rs len by simp
  have "ri_now r \<notin> set (map ri_now rest)" using a rs by simp
  then have "ri_now (hd rs) \<notin> set (map h_id (history (runs L E rs s)))"
    using ids rs by simp
  then show "ri_now (hd rs) \<notin> h_id ` set (history (runs L E rs s))" by simp
qed

text \<open>The theorem at the initial session, run eleven times with the network down, and
  at the session after ten of these runs, whose history is full.\<close>

theorem history_bounded_witness:
  "length (history (saveToHistory 11 ''t'' [] tenRunsSession)) \<le> 10 \<and>
   length (history tenRunsSession) = 10 \<and>
   history (saveToHistory 11 ''t'' [] tenRunsSession) =
     \<lparr>h_id = 11, h_timestamp = ''t'', h_language = language tenRunsSession,
      h_files = files tenRunsSession, h_testCases = []\<rparr> # butlast (history tenRunsSession) \<and>
   length (history (runs noIds noMessage elevenRuns initialSession)) \<le> 10 \<and>
   map h_id (history (runs noIds noMessage elevenRuns initialSession)) = [11, 10, 9, 8, 7, 6, 5, 4, 3, 2] \<and>
   1 \<notin> h_id ` set (history (runs noIds noMessage elevenRuns initialSession))"
proof -
  have res: "resolves initialSession"
    by (simp add: resolves_def initialSession_def initialFile_def)
  have emp: "history initialSession = []" by (simp add: initialSession_def)
  have nows: "map ri_now elevenRuns = [1, 2, 3, 4, 5, 6, 7, 8, 9, 10, 11]"
    by (simp add: elevenRuns_def runAt_def)
  have nows10: "map ri_now (take 10 elevenRuns) = [1, 2, 3, 4, 5, 6, 7, 8, 9, 10]"
    by (simp add: elevenRuns_def runAt_def)
  have len: "length elevenRuns = 11" by (simp add: elevenRuns_def)
  have dist: "distinct (map ri_now elevenRuns)" by (simp add: nows)
  have "map h_id (history tenRunsSession) = take 10 (rev (map ri_now (take 10 elevenRuns)) @ map h_id (history initialSession))"
    unfolding tenRunsSession_def
    using history_bounded [of 0 "[]" "[]" initialSession noIds noMessage "take 10 elevenRuns"] res emp
    by simp
  then have "length (map h_id (history tenRunsSession)) = 10"
    by (simp only: nows10 emp) simp
  then have ten: "length (history tenRunsSession) = 10" by simp
  have a: "length (history (saveToHistory 11 ''t'' [] tenRunsSession)) \<le> 10"
    using history_bounded [of 11 "''t''" "[]" tenRunsSession noIds noMessage "[]"] by blast
  have b: "history (saveToHistory 11 ''t'' [] tenRunsSession) =
     \<lparr>h_id = 11, h_timestamp = ''t'', h_language = language tenRunsSession,
      h_files = files tenRunsSession, h_testCases = []\<rparr> # butlast (history tenRunsSession)"
    using history_bounded [of 11 "''t''" "[]" tenRunsSession noIds noMessage "[]"] ten by blast
  have c: "length (history (runs noIds noMessage elevenRuns initialSession)) \<le> 10"
    using history_bounded [of 0 "[]" "[]" initialSession noIds noMessage elevenRuns] res emp by simp
  have d: "map h_id (history (runs noIds noMessage elevenRuns initialSession)) = rev (map ri_now (tl elevenRuns)) \<and>
      ri_now (hd elevenRuns) \<notin> h_id ` set (history (runs noIds noMessage elevenRuns initialSession))"
    using history_bounded [of 0 "[]" "[]" initialSession noIds noMessage elevenRuns] res emp len dist by blast
  have tl: "rev (map ri_now (tl elevenRuns)) = [11, 10, 9, 8, 7, 6, 5, 4, 3, 2]"
    by (simp add: elevenRuns_def runAt_def)
  have hd: "ri_now (hd elevenRuns) = 1" by (simp add: elevenRuns_def runAt_def)
  show ?thesis using a b c d ten unfolding tl hd by blast
qed

section \<open>Decoding the judge's answer\<close>

lemma appendDecoded_decodes:
  "decodes field \<Longrightarrow> appendDecoded label field (Some t) = Some (t @ decodedSection label field)"
  by (auto simp: decodes_def appendDecoded_def decodedSection_def split: option.splits)

lemma decodedSection_empty:
  "decodes field \<Longrightarrow> label \<noteq> [] \<Longrightarrow> (decodedSection label field = []) = (\<not> truthy field)"
  by (cases field) (auto simp: decodes_def decodedSection_def split: option.splits)

lemma statusLine_described:
  "statusLine r = (case describedStatus r of None \<Rightarrow> [] | Some d \<Rightarrow> ''Status: '' @ d @ [nl])"
  by (simp add: statusLine_def describedStatus_def split: option.splits)

lemma statusLine_empty: "(statusLine r = []) = (describedStatus r = None)"
  by (simp add: statusLine_described split: option.splits)

lemma outputTextOf_report:
  assumes "decodes (compile_output r)" "decodes (stderr r)" "decodes (stdout r)"
  shows "outputTextOf r = Some (reportOf r)"
proof -
  let ?text = "statusLine r @ decodedSection ''Compilation Output:'' (compile_output r)
                 @ decodedSection ''Error:'' (stderr r) @ decodedSection ''Output:'' (stdout r)"
  have out: "outputTextOf r = Some (if ?text = [] then noOutputMessage else ?text)"
    by (simp add: outputTextOf_def appendDecoded_decodes assms)
  have empty: "(?text = []) = (describedStatus r = None \<and> \<not> truthy (compile_output r)
      \<and> \<not> truthy (stderr r) \<and> \<not> truthy (stdout r))"
    using assms by (simp add: decodedSection_empty statusLine_empty)
  show ?thesis
  proof (cases "?text = []")
    case True
    then have "reportOf r = noOutputMessage"
      unfolding empty by (simp only: reportOf_def if_True simp_thms)
    then show ?thesis using True by (simp add: out)
  next
    case False
    then have "reportOf r = ?text"
      unfolding empty by (simp only: reportOf_def statusLine_described if_False)
    moreover have "outputTextOf r = Some ?text"
      using False by (simp only: out if_not_P if_False)
    ultimately show ?thesis by (simp only:)
  qed
qed


lemma atob_five: "atob ''NQo='' = Some [CHR ''5'', CHR 0x0A]"
  by code_simp

lemma runTestCase_decoded:
  assumes "success d" "result d = Some r"
    "decodes (compile_output r)" "decodes (stderr r)" "decodes (stdout r)"
  shows "runTestCase E (Resolved d) tc = tc\<lparr>tc_output := Some (reportOf r), tc_status := statusOf r\<rparr>"
  using assms by (simp add: runTestCase_def outputTextOf_report)



section \<open>One run over the test cases\<close>

lemma runTestCase_keeps:
  "tc_id (runTestCase E out tc) = tc_id tc \<and> tc_input (runTestCase E out tc) = tc_input tc"
  by (simp add: runTestCase_def failed_def split: fetchOutcome.splits option.splits)

lemma runTestCase_rejected:
  "runTestCase E (Rejected msg) tc = tc\<lparr>tc_output := Some (''Error: '' @ msg), tc_status := Error\<rparr>"
  by (simp add: runTestCase_def failed_def)

lemma runTestCase_refused:
  "\<not> success d \<Longrightarrow>
   runTestCase E (Resolved d) tc =
     tc\<lparr>tc_output := Some (orElse (message d) ''Unknown error''), tc_status := Error\<rparr>"
  by (simp add: runTestCase_def failed_def)

lemma handleRun_testCases:
  assumes "find (\<lambda>f. file_id f = activeFileId s) (files s) = Some a"
  shows "testCases (handleRun L E fetch now t s) =
     map (\<lambda>(i, tc). runTestCase E (fetch i ((basePayload L s a)\<lparr>rq_input := tc_input tc\<rparr>)) tc)
       (enumerate 0 (testCases s))"
  by (simp add: handleRun_def assms Let_def saveToHistory_def)

lemma handleRun_nth:
  assumes "find (\<lambda>f. file_id f = activeFileId s) (files s) = Some a" "j < length (testCases s)"
  shows "testCases (handleRun L E fetch now t s) ! j =
     runTestCase E (fetch j ((basePayload L s a)\<lparr>rq_input := tc_input (testCases s ! j)\<rparr>))
       (testCases s ! j)"
  using assms(2) by (simp add: handleRun_testCases [OF assms(1)] nth_enumerate_eq)

lemma handleRun_unresolved:
  "\<not> resolves s \<Longrightarrow> handleRun L E fetch now t s = s\<lparr>isLoading := True\<rparr>"
  by (simp add: handleRun_def resolves_def Let_def)

lemma handleRun_resolved_loading:
  "resolves s \<Longrightarrow> \<not> isLoading (handleRun L E fetch now t s)"
  by (auto simp: handleRun_def resolves_def Let_def saveToHistory_def)

text \<open>Claim C1. In a run whose active file resolves, the committed list of test cases
  has the length of the list before, and its entry at each position \<open>j\<close> keeps the id and
  the input of the test case at \<open>j\<close> and is decided by the outcome of request \<open>j\<close> alone:
  a rejected request gives status \<open>Error\<close> and the output "Error: " followed by the
  message of the rejection; an answer with \<^verbatim>\<open>success\<close> false gives status \<open>Error\<close> and the
  answer's message (or "Unknown error") as output; an answer with \<^verbatim>\<open>success\<close> true whose
  fields decode gives the decoded report and its status. So a failure at one position
  neither removes, nor moves, nor changes the entry at another.\<close>

theorem run_isolates_failures:
  "find (\<lambda>f. file_id f = activeFileId s) (files s) = Some a \<longrightarrow>
     length (testCases (handleRun L E fetch now t s)) = length (testCases s) \<and>
     (\<forall>j < length (testCases s).
        tc_id (testCases (handleRun L E fetch now t s) ! j) = tc_id (testCases s ! j) \<and>
        tc_input (testCases (handleRun L E fetch now t s) ! j) = tc_input (testCases s ! j) \<and>
        (\<forall>msg. fetch j ((basePayload L s a)\<lparr>rq_input := tc_input (testCases s ! j)\<rparr>) = Rejected msg \<longrightarrow>
           testCases (handleRun L E fetch now t s) ! j =
             (testCases s ! j)\<lparr>tc_output := Some (''Error: '' @ msg), tc_status := Error\<rparr>) \<and>
        (\<forall>d. fetch j ((basePayload L s a)\<lparr>rq_input := tc_input (testCases s ! j)\<rparr>) = Resolved d \<and>
              \<not> success d \<longrightarrow>
           testCases (handleRun L E fetch now t s) ! j =
             (testCases s ! j)\<lparr>tc_output := Some (orElse (message d) ''Unknown error''),
                                tc_status := Error\<rparr>) \<and>
        (\<forall>d r. fetch j ((basePayload L s a)\<lparr>rq_input := tc_input (testCases s ! j)\<rparr>) = Resolved d \<and>
              success d \<and> result d = Some r \<and> decodes (compile_output r) \<and> decodes (stderr r) \<and>
              decodes (stdout r) \<longrightarrow>
           testCases (handleRun L E fetch now t s) ! j =
             (testCases s ! j)\<lparr>tc_output := Some (reportOf r), tc_status := statusOf r\<rparr>))"
proof (intro impI conjI allI)
  assume a: "find (\<lambda>f. file_id f = activeFileId s) (files s) = Some a"
  show "length (testCases (handleRun L E fetch now t s)) = length (testCases s)"
    by (simp add: handleRun_testCases [OF a])
next
  fix j
  assume a: "find (\<lambda>f. file_id f = activeFileId s) (files s) = Some a"
    and j: "j < length (testCases s)"
  note nth = handleRun_nth [OF a j, of L E fetch now t]
  show "tc_id (testCases (handleRun L E fetch now t s) ! j) = tc_id (testCases s ! j)"
    by (simp only: nth runTestCase_keeps)
  show "tc_input (testCases (handleRun L E fetch now t s) ! j) = tc_input (testCases s ! j)"
    by (simp only: nth runTestCase_keeps)
  show "fetch j ((basePayload L s a)\<lparr>rq_input := tc_input (testCases s ! j)\<rparr>) = Rejected msg \<Longrightarrow>
           testCases (handleRun L E fetch now t s) ! j =
             (testCases s ! j)\<lparr>tc_output := Some (''Error: '' @ msg), tc_status := Error\<rparr>" for msg
    by (simp only: nth runTestCase_rejected)
  show "fetch j ((basePayload L s a)\<lparr>rq_input := tc_input (testCases s ! j)\<rparr>) = Resolved d \<and>
              \<not> success d \<Longrightarrow>
           testCases (handleRun L E fetch now t s) ! j =
             (testCases s ! j)\<lparr>tc_output := Some (orElse (message d) ''Unknown error''),
                                tc_status := Error\<rparr>" for d
    by (simp only: nth) (simp add: runTestCase_refused)
  show "fetch j ((basePayload L s a)\<lparr>rq_input := tc_input (testCases s ! j)\<rparr>) = Resolved d \<and>
              success d \<and> result d = Some r \<and> decodes (compile_output r) \<and> decodes (stderr r) \<and>
              decodes (stdout r) \<Longrightarrow>
           testCases (handleRun L E fetch now t s) ! j =
             (testCases s ! j)\<lparr>tc_output := Some (reportOf r), tc_status := statusOf r\<rparr>" for d r
    by (simp only: nth) (simp add: runTestCase_decoded)
qed

text \<open>Three test cases with the second request rejected: the three entries stay in
  place, the second one carries the failure and the two others their decoded report.\<close>

theorem run_isolates_failures_witness:
  "find (\<lambda>f. file_id f = activeFileId threeCases) (files threeCases) = Some initialFile \<and>
   length (testCases (handleRun noIds noMessage secondFails 7 ''t'' threeCases)) = 3 \<and>
   testCases (handleRun noIds noMessage secondFails 7 ''t'' threeCases) ! 0 =
     \<lparr>tc_id = 1, tc_input = ''a'', tc_output = Some (reportOf (the (result acceptedFive))),
      tc_status = Success\<rparr> \<and>
   testCases (handleRun noIds noMessage secondFails 7 ''t'' threeCases) ! 1 =
     \<lparr>tc_id = 2, tc_input = ''b'', tc_output = Some ''Error: Failed to fetch'', tc_status = Error\<rparr> \<and>
   testCases (handleRun noIds noMessage secondFails 7 ''t'' threeCases) ! 2 =
     \<lparr>tc_id = 3, tc_input = ''c'', tc_output = Some (reportOf (the (result acceptedFive))),
      tc_status = Success\<rparr>"
proof -
  let ?r = "\<lparr>stdout = Some ''NQo='', stderr = None, compile_output = None,
             status = Some \<lparr>st_id = Some 3, st_description = Some ''Accepted''\<rparr>\<rparr>"
  have a: "find (\<lambda>f. file_id f = activeFileId threeCases) (files threeCases) = Some initialFile"
    by (simp add: threeCases_def initialSession_def initialFile_def)
  have tcs: "testCases threeCases =
       [\<lparr>tc_id = 1, tc_input = ''a'', tc_output = None, tc_status = Pending\<rparr>,
        \<lparr>tc_id = 2, tc_input = ''b'', tc_output = None, tc_status = Pending\<rparr>,
        \<lparr>tc_id = 3, tc_input = ''c'', tc_output = None, tc_status = Pending\<rparr>]"
    by (simp add: threeCases_def)
  have res: "success acceptedFive \<and> result acceptedFive = Some ?r"
    by (simp add: acceptedFive_def)
  have dec: "decodes (compile_output ?r) \<and> decodes (stderr ?r) \<and> decodes (stdout ?r)"
    by (simp add: decodes_def atob_five)
  have st: "statusOf ?r = Success" by (simp add: statusOf_def statusIdAbove3_def)
  note th = run_isolates_failures [of threeCases initialFile noIds noMessage secondFails 7 "''t''",
      rule_format, OF a]
  have len: "length (testCases (handleRun noIds noMessage secondFails 7 ''t'' threeCases)) = 3"
    using th [THEN conjunct1] by (simp add: tcs)
  have e0: "testCases (handleRun noIds noMessage secondFails 7 ''t'' threeCases) ! 0 =
      (testCases threeCases ! 0)\<lparr>tc_output := Some (reportOf ?r), tc_status := statusOf ?r\<rparr>"
    using th [THEN conjunct2, rule_format, of 0, THEN conjunct2, THEN conjunct2, THEN conjunct2,
        THEN conjunct2, rule_format, of acceptedFive ?r] res dec
    by (simp add: tcs secondFails_def)
  have e1: "testCases (handleRun noIds noMessage secondFails 7 ''t'' threeCases) ! 1 =
      (testCases threeCases ! 1)\<lparr>tc_output := Some (''Error: '' @ ''Failed to fetch''), tc_status := Error\<rparr>"
    using th [THEN conjunct2, rule_format, of 1, THEN conjunct2, THEN conjunct2, THEN conjunct1,
        rule_format, of "''Failed to fetch''"]
    by (simp add: tcs secondFails_def)
  have e2: "testCases (handleRun noIds noMessage secondFails 7 ''t'' threeCases) ! 2 =
      (testCases threeCases ! 2)\<lparr>tc_output := Some (reportOf ?r), tc_status := statusOf ?r\<rparr>"
    using th [THEN conjunct2, rule_format, of 2, THEN conjunct2, THEN conjunct2, THEN conjunct2,
        THEN conjunct2, rule_format, of acceptedFive ?r] res dec
    by (simp add: tcs secondFails_def)
  show ?thesis
    using a len e0 e1 e2 by (simp add: tcs st res)
qed

text \<open>Claim C6, at a session whose active id names no file: \<^verbatim>\<open>handleRun\<close> sets the
  loading flag, finds no active file and returns before the \<^verbatim>\<open>try ... finally\<close> that
  would clear the flag. No request is sent, nothing else changes, and the flag stays
  set.\<close>

theorem handleRun_without_active_file:
  "handleRun L E fetch now t noFilesSession = noFilesSession\<lparr>isLoading := True\<rparr> \<and>
   isLoading (handleRun L E fetch now t noFilesSession)"
  by (simp add: handleRun_def noFilesSession_def initialSession_def Let_def)

section \<open>Renaming a file\<close>


lemma renameWithTemplate_nth:
  "j < length fs \<Longrightarrow>
   renameWithTemplate fid newName tmpl lang fs ! j =
     (if file_id (fs ! j) = fid
      then (fs ! j)\<lparr>file_name := newName, file_content := tmpl, file_language := lang\<rparr>
      else fs ! j)"
  by (simp add: renameWithTemplate_def)

lemma js_lookup_own: "map_of table key = Some v \<Longrightarrow> js_lookup table key = Own v"
  by (simp add: js_lookup_def)

lemma handleRenameFile_changed:
  assumes "find (\<lambda>f. file_id f = fid) (files s) = Some file"
    "toLowerCase (split_pop (file_name file)) \<noteq> toLowerCase (split_pop newName)"
    "map_of extensionToLanguage (toLowerCase (split_pop newName)) = Some lang"
  shows "handleRenameFile T fid newName s =
     Some (s\<lparr>language := lang,
             files := renameWithTemplate fid newName (orElse (T lang) []) lang (files s)\<rparr>)"
  using assms by (simp add: handleRenameFile_def Let_def js_lookup_own)


text \<open>A name that \<^verbatim>\<open>saveEditing\<close> passes on has an extension of the table: the tabs never
  call the handler with another one.\<close>

lemma saveEditing_accepts:
  assumes "saveEditing editingId editName = OnRenameFile fid newName"
  shows "editingId = Some fid \<and> newName = trim editName \<and>
         map_of extensionToLanguage (toLowerCase (split_pop newName)) \<noteq> None"
proof -
  from assms obtain eid where e: "editingId = Some eid"
    by (cases editingId) (auto simp: saveEditing_def)
  from assms e have ok: "eid = fid" "newName = trim editName"
    "toLowerCase (last (split (CHR ''.'') (trim editName))) \<in> set validExtensions"
    by (auto simp: saveEditing_def Let_def split: if_splits)
  from ok(3) have "map_of extensionToLanguage (toLowerCase (split_pop (trim editName))) \<noteq> None"
    unfolding split_pop_def validExtensions_def extensionToLanguage_def by auto
  then show ?thesis using e ok by simp
qed

text \<open>The language effect that runs after the handler has set the selector leaves the
  renamed file with the language and the template the handler gave it: where the effect
  rewrites a file at all, it writes the template and the tag of the selector's language.\<close>

lemma languageEffect_nth:
  assumes "languageEffect T s = Some s'" "j < length (files s)"
  shows "language s' = language s \<and> length (files s') = length (files s) \<and>
         file_id (files s' ! j) = file_id (files s ! j) \<and>
         (files s' ! j = files s ! j \<or>
          file_content (files s' ! j) = orElse (T (language s)) [] \<and>
          file_language (files s' ! j) = language s)"
proof -
  consider "s' = s"
    | newName where "s' = s\<lparr>files := renameWithTemplate (activeFileId s) newName
                                  (orElse (T (language s)) []) (language s) (files s)\<rparr>"
    using assms(1)
    by (auto simp: languageEffect_def Let_def split: if_splits option.splits)
  then show ?thesis
  proof cases
    case 1
    then show ?thesis by simp
  next
    case 2
    then show ?thesis using assms(2) by (simp add: renameWithTemplate_nth renameWithTemplate_def)
  qed
qed

lemma rename_then_effect:
  assumes "find (\<lambda>f. file_id f = fid) (files s) = Some file"
    "toLowerCase (split_pop (file_name file)) \<noteq> toLowerCase (split_pop newName)"
    "map_of extensionToLanguage (toLowerCase (split_pop newName)) = Some lang"
    "handleRenameFile T fid newName s = Some s1" "languageEffect T s1 = Some s2"
    "j < length (files s)" "file_id (files s ! j) = fid"
  shows "language s2 = lang \<and> file_id (files s2 ! j) = fid \<and>
         file_language (files s2 ! j) = lang \<and> file_content (files s2 ! j) = orElse (T lang) []"
proof -
  have s1: "s1 = s\<lparr>language := lang,
             files := renameWithTemplate fid newName (orElse (T lang) []) lang (files s)\<rparr>"
    using handleRenameFile_changed [OF assms(1-3), of T] assms(4) by simp
  have len: "length (files s1) = length (files s)" by (simp add: s1 renameWithTemplate_def)
  have j1: "files s1 ! j = (files s ! j)\<lparr>file_name := newName, file_content := orElse (T lang) [],
                                        file_language := lang\<rparr>"
    using assms(6,7) by (simp add: s1 renameWithTemplate_nth)
  have l1: "language s1 = lang" by (simp add: s1)
  from languageEffect_nth [OF assms(5), of j] assms(6) len
  show ?thesis using j1 l1 assms(7) by auto
qed



section \<open>Changing the language\<close>

lemma split_no_separator: "c \<notin> set xs \<Longrightarrow> split c xs = [xs]"
  by (induction xs) auto

lemma split_at_separator: "c \<notin> set xs \<Longrightarrow> split c (xs @ c # ys) = xs # split c ys"
  by (induction xs) auto

lemma split_base_ext:
  assumes "CHR ''.'' \<notin> set base" "CHR ''.'' \<notin> set ext"
  shows "split_pop (base @ CHR ''.'' # ext) = ext" "split_first (base @ CHR ''.'' # ext) = base"
  using assms by (simp_all add: split_pop_def split_first_def split_at_separator split_no_separator)

text \<open>For a name with one dot the effect does what the specification says: with another
  extension than the language's it keeps the base name, swaps the extension, resets the
  content to the template and sets the language tag; with the language's extension it
  changes nothing.\<close>

lemma languageEffect_swaps:
  assumes "activeFileId s \<noteq> []"
    "find (\<lambda>f. file_id f = activeFileId s) (files s) = Some af"
    "file_name af = base @ ''.'' @ ext" "CHR ''.'' \<notin> set base" "CHR ''.'' \<notin> set ext"
    "map_of extensionMap (language s) = Some e" "ext \<noteq> e"
  shows "languageEffect T s =
     Some (s\<lparr>files := renameWithTemplate (activeFileId s) (base @ ''.'' @ e)
                         (orElse (T (language s)) []) (language s) (files s)\<rparr>)"
  using assms
  by (simp add: languageEffect_def getExtensionFromLanguage_def js_lookup_own split_base_ext Let_def)

lemma languageEffect_matches:
  assumes "find (\<lambda>f. file_id f = activeFileId s) (files s) = Some af"
    "map_of extensionMap (language s) = Some (split_pop (file_name af))"
  shows "languageEffect T s = Some s"
  using assms
  by (simp add: languageEffect_def getExtensionFromLanguage_def js_lookup_own Let_def)

lemma main_js_to_python:
  "changeLanguage pythonOnly ''python'' initialSession =
     Some (initialSession\<lparr>language := ''python'',
             files := [\<lparr>file_id = ''1'', file_name = ''main.py'', file_content = ''print(1)'',
                        file_language = ''python''\<rparr>]\<rparr>)"
proof -
  let ?s = "setLanguage ''python'' initialSession"
  have a: "activeFileId ?s \<noteq> []" by (simp add: setLanguage_def initialSession_def)
  have f: "find (\<lambda>f. file_id f = activeFileId ?s) (files ?s) = Some initialFile"
    by (simp add: setLanguage_def initialSession_def initialFile_def)
  have n: "file_name initialFile = ''main'' @ ''.'' @ ''js''" by (simp add: initialFile_def)
  have e: "map_of extensionMap (language ?s) = Some ''py''"
    by (simp add: setLanguage_def extensionMap_def)
  have "languageEffect pythonOnly ?s =
     Some (?s\<lparr>files := renameWithTemplate (activeFileId ?s) (''main'' @ ''.'' @ ''py'')
                         (orElse (pythonOnly (language ?s)) []) (language ?s) (files ?s)\<rparr>)"
    by (rule languageEffect_swaps [OF a f n _ _ e]) simp_all
  then show ?thesis
    by (simp add: changeLanguage_def setLanguage_def initialSession_def initialFile_def
        renameWithTemplate_def pythonOnly_def)
qed

text \<open>Claim C4, at a name with two dots. The effect takes the text after the last dot as
  the extension and the text before the first dot as the base name: switching to Python
  with the active file \<^verbatim>\<open>my.test.js\<close> gives \<^verbatim>\<open>my.py\<close>, not \<^verbatim>\<open>my.test.py\<close>. The part
  \<^verbatim>\<open>.test\<close> of the base name is lost.\<close>

theorem language_change_drops_middle_of_name:
  "changeLanguage pythonOnly ''python'' multiDotSession =
     Some (multiDotSession\<lparr>language := ''python'',
             files := [\<lparr>file_id = ''1'', file_name = ''my.py'', file_content = ''print(1)'',
                        file_language = ''python''\<rparr>]\<rparr>)"
proof -
  let ?s = "setLanguage ''python'' multiDotSession"
  have f: "find (\<lambda>f. file_id f = ''1'') (files ?s) = Some (initialFile\<lparr>file_name := ''my.test.js''\<rparr>)"
    by (simp add: setLanguage_def multiDotSession_def initialSession_def initialFile_def)
  have a: "activeFileId ?s = ''1''" "language ?s = ''python''"
    by (simp_all add: setLanguage_def multiDotSession_def initialSession_def)
  have e: "getExtensionFromLanguage ''python'' = Some ''py''"
    by (simp add: getExtensionFromLanguage_def js_lookup_def extensionMap_def)
  have p: "split_pop ''my.test.js'' = ''js''" by code_simp
  have b: "split_first ''my.test.js'' = ''my''" by code_simp
  have "languageEffect pythonOnly ?s =
      Some (?s\<lparr>files := renameWithTemplate ''1'' (''my'' @ ''.'' @ ''py'')
                           (orElse (pythonOnly ''python'') []) ''python'' (files ?s)\<rparr>)"
    by (simp add: languageEffect_def f a e p b Let_def)
  then show ?thesis
    by (simp add: changeLanguage_def setLanguage_def multiDotSession_def initialSession_def
        initialFile_def renameWithTemplate_def pythonOnly_def)
qed

section \<open>Creating files\<close>

lemma digit_char_code:
  assumes "0 \<le> a" "a < 10"
  shows "(of_char (digit_char a) :: int) = 48 + a"
proof -
  have "(of_char (digit_char a) :: int) = (48 + a) mod 256"
    by (simp add: digit_char_def of_char_of)
  also have "\<dots> = 48 + a" using assms by (simp add: mod_pos_pos_trivial)
  finally show ?thesis .
qed

lemma digit_char_inj:
  assumes "0 \<le> a" "a < 10" "0 \<le> b" "b < 10" "digit_char a = digit_char b"
  shows "a = b"
proof -
  have "(of_char (digit_char a) :: int) = of_char (digit_char b)"
    using assms(5) by simp
  then show ?thesis using assms(1-4) by (simp add: digit_char_code)
qed

lemma digit_char_not_minus:
  assumes "0 \<le> a" "a < 10"
  shows "digit_char a \<noteq> CHR ''-''"
proof
  assume "digit_char a = CHR ''-''"
  then have "(of_char (digit_char a) :: int) = of_char CHR ''-''" by simp
  then show False using assms by (simp add: digit_char_code)
qed

lemma digits_nonempty: "digits n \<noteq> []"
  by (subst digits.simps) simp

lemma digits_small: "n < 10 \<Longrightarrow> digits n = [digit_char n]"
  by (subst digits.simps) simp

lemma digits_large: "\<not> n < 10 \<Longrightarrow> digits n = digits (n div 10) @ [digit_char (n mod 10)]"
  by (subst digits.simps) simp

lemma digits_inj: "0 \<le> a \<Longrightarrow> 0 \<le> b \<Longrightarrow> digits a = digits b \<Longrightarrow> a = b"
proof (induction a arbitrary: b rule: digits.induct)
  case (1 n)
  show ?case
  proof (cases "n < 10")
    case True
    then have one: "digits b = [digit_char n]" using "1.prems"(3) by (simp add: digits_small)
    have "b < 10"
    proof (rule ccontr)
      assume "\<not> b < 10"
      then have "digits b = digits (b div 10) @ [digit_char (b mod 10)]" by (rule digits_large)
      then show False using one digits_nonempty [of "b div 10"] by simp
    qed
    then have "digit_char n = digit_char b" using one by (simp add: digits_small)
    then show ?thesis using True \<open>b < 10\<close> "1.prems"(1,2) by (intro digit_char_inj) auto
  next
    case False
    then have n: "digits n = digits (n div 10) @ [digit_char (n mod 10)]" by (rule digits_large)
    have "\<not> b < 10"
    proof
      assume "b < 10"
      then have "digits b = [digit_char b]" by (rule digits_small)
      then show False using n "1.prems"(3) digits_nonempty [of "n div 10"] by simp
    qed
    then have b: "digits b = digits (b div 10) @ [digit_char (b mod 10)]" by (rule digits_large)
    from n b "1.prems"(3) have eq: "digits (n div 10) = digits (b div 10)"
      "digit_char (n mod 10) = digit_char (b mod 10)" by simp_all
    have "n div 10 = b div 10"
      using "1.IH" [OF False _ _ eq(1)] "1.prems"(1,2) by simp
    moreover have "n mod 10 = b mod 10"
      using eq(2) by (intro digit_char_inj) simp_all
    ultimately show ?thesis by (metis div_mult_mod_eq)
  qed
qed

lemma digits_no_minus: "0 \<le> n \<Longrightarrow> CHR ''-'' \<notin> set (digits n)"
proof (induction n rule: digits.induct)
  case (1 n)
  show ?case
  proof (cases "n < 10")
    case True
    then show ?thesis using "1.prems" digit_char_not_minus [of n] by (simp add: digits_small)
  next
    case False
    have "CHR ''-'' \<notin> set (digits (n div 10))"
      using "1.IH" [OF False] "1.prems" by simp
    moreover have "digit_char (n mod 10) \<noteq> CHR ''-''"
      by (rule digit_char_not_minus) simp_all
    ultimately show ?thesis using False by (simp add: digits_large)
  qed
qed

lemma toString_inj: "toString a = toString b \<Longrightarrow> a = b"
proof -
  assume eq: "toString a = toString b"
  consider "a < 0" "b < 0" | "a < 0" "0 \<le> b" | "0 \<le> a" "b < 0" | "0 \<le> a" "0 \<le> b"
    by linarith
  then show ?thesis
  proof cases
    case 1
    then have "digits (- a) = digits (- b)" using eq by (simp add: toString_def)
    then have "- a = - b" using 1 by (intro digits_inj) simp_all
    then show ?thesis by simp
  next
    case 2
    then have "CHR ''-'' # digits (- a) = digits b" using eq by (simp add: toString_def)
    then have "CHR ''-'' \<in> set (digits b)" by (metis list.set_intros(1))
    then show ?thesis using digits_no_minus 2 by blast
  next
    case 3
    then have "digits a = CHR ''-'' # digits (- b)" using eq by (simp add: toString_def)
    then have "CHR ''-'' \<in> set (digits a)" by (metis list.set_intros(1))
    then show ?thesis using digits_no_minus 3 by blast
  next
    case 4
    then show ?thesis using eq by (intro digits_inj) (simp_all add: toString_def)
  qed
qed

lemma handleCreateFile_files:
  "files (handleCreateFile G now name s) =
     files s @ [\<lparr>file_id = toString now, file_name = name,
                 file_content = (case G name of Some t \<Rightarrow> t | None \<Rightarrow> []),
                 file_language = language s\<rparr>]"
  "activeFileId (handleCreateFile G now name s) = toString now"
  by (simp_all add: handleCreateFile_def Let_def)

lemma createFiles_ids:
  "map file_id (files (createFiles G cs s)) = map file_id (files s) @ map (toString \<circ> fst) cs"
  by (induction G cs s rule: createFiles.induct) (simp_all add: handleCreateFile_files)

lemma createFiles_active:
  "cs \<noteq> [] \<Longrightarrow> activeFileId (createFiles G cs s) = toString (fst (last cs))"
  by (induction G cs s rule: createFiles.induct) (auto simp: handleCreateFile_files)

lemma distinct_toString: "distinct (map (toString \<circ> fst) cs) = distinct (map fst cs)"
proof -
  have "inj_on toString (set (map fst cs))"
    by (rule inj_onI) (rule toString_inj)
  then have "distinct (map toString (map fst cs)) = distinct (map fst cs)"
    by (simp only: distinct_map) simp
  then show ?thesis by simp
qed

text \<open>Claim C10, as the code has it. \<^verbatim>\<open>handleCreateFile\<close> appends one file whose id is the
  decimal text of the clock value at the call and makes it the active file. After a
  sequence of calls the ids of the files are pairwise distinct if and only if the ids
  were distinct before, the clock values at the calls are pairwise distinct, and no call's
  clock value has an id already in use as its decimal text.\<close>

theorem createFile_ids:
  "files (handleCreateFile G now name s) =
     files s @ [\<lparr>file_id = toString now, file_name = name,
                 file_content = (case G name of Some t \<Rightarrow> t | None \<Rightarrow> []),
                 file_language = language s\<rparr>] \<and>
   activeFileId (handleCreateFile G now name s) = toString now \<and>
   distinct (map file_id (files (createFiles G cs s))) =
     (distinct (map file_id (files s)) \<and> distinct (map fst cs) \<and>
      (\<forall>c \<in> set cs. toString (fst c) \<notin> file_id ` set (files s)))"
proof (intro conjI)
  show "distinct (map file_id (files (createFiles G cs s))) =
     (distinct (map file_id (files s)) \<and> distinct (map fst cs) \<and>
      (\<forall>c \<in> set cs. toString (fst c) \<notin> file_id ` set (files s)))"
  proof -
    have disj: "(set (map file_id (files s)) \<inter> set (map (toString \<circ> fst) cs) = {}) =
        (\<forall>c \<in> set cs. toString (fst c) \<notin> file_id ` set (files s))"
      by (simp add: disjoint_iff image_iff) blast
    show ?thesis
      unfolding createFiles_ids distinct_append distinct_toString disj by simp
  qed
qed (simp_all add: handleCreateFile_files)

text \<open>Two files created at the clock values 5 and 6 in the initial session: the three
  ids are distinct and the second new file is the active one.\<close>

theorem createFile_ids_witness:
  "distinct (map file_id (files initialSession)) \<and>
   distinct (map fst [(5 :: int, ''a.js''), (6, ''b.js'')]) \<and>
   toString 5 \<notin> file_id ` set (files initialSession) \<and>
   toString 6 \<notin> file_id ` set (files initialSession) \<and>
   distinct (map file_id (files (createFiles noTemplate [(5, ''a.js''), (6, ''b.js'')] initialSession))) \<and>
   activeFileId (handleCreateFile noTemplate 6 ''b.js''
      (handleCreateFile noTemplate 5 ''a.js'' initialSession)) = toString 6"
proof -
  have ids: "map file_id (files initialSession) = [''1'']"
    by (simp add: initialSession_def initialFile_def)
  have one: "toString 1 = ''1''" by code_simp
  have n5: "toString 5 \<noteq> ''1''" using toString_inj [of 5 1] one by auto
  have n6: "toString 6 \<noteq> ''1''" using toString_inj [of 6 1] one by auto
  have set_ids: "file_id ` set (files initialSession) = {''1''}"
    using ids by (metis list.set_map list.simps(15) empty_set)
  have hyp: "distinct (map file_id (files initialSession)) \<and>
      distinct (map fst [(5 :: int, ''a.js''), (6, ''b.js'')]) \<and>
      (\<forall>c \<in> set [(5 :: int, ''a.js''), (6, ''b.js'')]. toString (fst c) \<notin> file_id ` set (files initialSession))"
    using n5 n6 by (simp add: ids set_ids)
  note th = createFile_ids [where G = noTemplate and now = 6 and name = "''b.js''"
      and s = "handleCreateFile noTemplate 5 ''a.js'' initialSession"]
  have d: "distinct (map file_id (files (createFiles noTemplate [(5, ''a.js''), (6, ''b.js'')] initialSession)))"
    using createFile_ids [where G = noTemplate and cs = "[(5, ''a.js''), (6, ''b.js'')]"
        and s = initialSession] hyp by blast
  have a: "activeFileId (handleCreateFile noTemplate 6 ''b.js''
      (handleCreateFile noTemplate 5 ''a.js'' initialSession)) = toString 6"
    using th by blast
  show ?thesis using hyp d a by simp
qed

text \<open>Two calls within the same millisecond give two files with the same id.\<close>

theorem createFile_same_clock_counterexample:
  "\<not> distinct (map file_id (files (createFiles noTemplate [(5, ''a.js''), (5, ''b.js'')] initialSession)))"
  by (simp only: createFiles_ids) simp

section \<open>The JSON text of a session subset parses back\<close>

lemma of_char_range: "0 \<le> (of_char c :: int) \<and> (of_char c :: int) < 256"
  using pos_mod_sign [of 256 "of_char c :: int"] pos_mod_bound [of 256 "of_char c :: int"] by simp

lemma char_eq_code: "(c = d) = ((of_char c :: int) = of_char d)"
  by (simp add: of_char_eq_iff)

lemma of_char_char_of_small: "0 \<le> n \<Longrightarrow> n < 256 \<Longrightarrow> (of_char (char_of (n :: int)) :: int) = n"
  by (simp add: of_char_of mod_pos_pos_trivial)

lemma hex_value_digit: "0 \<le> d \<Longrightarrow> d < 16 \<Longrightarrow> hex_value (hex_digit d) = Some d"
  by (simp add: hex_value_def hex_digit_def of_char_char_of_small Let_def)

lemma hex_value_zero: "hex_value CHR ''0'' = Some 0"
  by (simp add: hex_value_def)

lemma hex4_control:
  assumes "0 \<le> n" "n < 32"
  shows "hex4 CHR ''0'' CHR ''0'' (hex_digit (n div 16)) (hex_digit (n mod 16)) = Some n"
proof -
  have a: "hex_value (hex_digit (n div 16)) = Some (n div 16)"
    using assms by (intro hex_value_digit) auto
  have b: "hex_value (hex_digit (n mod 16)) = Some (n mod 16)"
    by (intro hex_value_digit) auto
  show ?thesis by (simp add: hex4_def hex_value_zero a b)
qed

lemma parse_chars_escape:
  "parse_chars (escape_char c @ tail) = cons_char c (parse_chars tail)"
proof -
  let ?n = "of_char c :: int"
  have rng: "0 \<le> ?n" "?n < 256" using of_char_range [of c] by auto
  have codes: "(of_char dquote :: int) = 34" "(of_char backslash :: int) = 92"
    by (simp_all add: dquote_def backslash_def)
  consider "?n = 8" | "?n = 9" | "?n = 10" | "?n = 12" | "?n = 13" | "?n = 34" | "?n = 92"
    | "?n < 32" "?n \<notin> {8, 9, 10, 12, 13}" | "32 \<le> ?n" "?n \<noteq> 34" "?n \<noteq> 92"
    by fastforce
  then show ?thesis
  proof cases
    case 1
    then have c: "c = CHR 0x08" by (simp add: char_eq_code)
    show ?thesis unfolding c by (simp add: escape_char_def unescape_def char_eq_code codes)
  next
    case 2
    then have c: "c = CHR 0x09" by (simp add: char_eq_code)
    show ?thesis unfolding c by (simp add: escape_char_def unescape_def char_eq_code codes)
  next
    case 3
    then have c: "c = CHR 0x0A" by (simp add: char_eq_code)
    show ?thesis unfolding c by (simp add: escape_char_def unescape_def char_eq_code codes)
  next
    case 4
    then have c: "c = CHR 0x0C" by (simp add: char_eq_code)
    show ?thesis unfolding c by (simp add: escape_char_def unescape_def char_eq_code codes)
  next
    case 5
    then have c: "c = CHR 0x0D" by (simp add: char_eq_code)
    show ?thesis unfolding c by (simp add: escape_char_def unescape_def char_eq_code codes)
  next
    case 6
    then have c: "c = dquote" by (simp add: char_eq_code codes)
    show ?thesis unfolding c by (simp add: escape_char_def unescape_def char_eq_code codes)
  next
    case 7
    then have c: "c = backslash" by (simp add: char_eq_code codes)
    show ?thesis unfolding c by (simp add: escape_char_def unescape_def char_eq_code codes)
  next
    case 8
    have esc: "escape_char c = [backslash, CHR ''u'', CHR ''0'', CHR ''0'', hex_digit (?n div 16),
        hex_digit (?n mod 16)]"
      using 8 by (auto simp: escape_char_def Let_def)
    have c: "char_of ?n = c" by simp
    show ?thesis
      using 8(1) rng hex4_control [of ?n]
      by (simp add: esc char_eq_code codes c)
  next
    case 9
    then have "escape_char c = [c]" by (auto simp: escape_char_def Let_def)
    then show ?thesis using 9 by (simp add: char_eq_code codes)
  qed
qed

lemma parse_chars_quoted:
  "parse_chars (concat (map escape_char s) @ dquote # rest) = Some (s, rest)"
  by (induction s) (simp_all add: parse_chars_escape cons_char_def)


text \<open>Integers: the digits that \<^verbatim>\<open>toString\<close> writes are read back to the same number.\<close>

lemma digit_char_is_digit: "0 \<le> d \<Longrightarrow> d < 10 \<Longrightarrow> is_digit (digit_char d)"
  by (simp add: is_digit_def digit_char_code)

lemma digits_are_digits: "0 \<le> n \<Longrightarrow> \<forall>c \<in> set (digits n). is_digit c"
proof (induction n rule: digits.induct)
  case (1 n)
  show ?case
  proof (cases "n < 10")
    case True
    then show ?thesis using "1.prems" by (simp add: digits_small digit_char_is_digit)
  next
    case False
    have "\<forall>c \<in> set (digits (n div 10)). is_digit c"
      using "1.IH" [OF False] "1.prems" by simp
    moreover have "is_digit (digit_char (n mod 10))"
      by (rule digit_char_is_digit) simp_all
    ultimately show ?thesis using False by (simp add: digits_large)
  qed
qed

lemma digits_value_snoc: "digits_value (ds @ [c]) = digits_value ds * 10 + (of_char c - 48)"
  by (simp add: digits_value_def)

lemma digits_value_digits: "0 \<le> n \<Longrightarrow> digits_value (digits n) = n"
proof (induction n rule: digits.induct)
  case (1 n)
  show ?case
  proof (cases "n < 10")
    case True
    then show ?thesis using "1.prems"
      by (simp add: digits_small digits_value_def digit_char_code)
  next
    case False
    have "digits_value (digits (n div 10)) = n div 10"
      using "1.IH" [OF False] "1.prems" by simp
    moreover have "(of_char (digit_char (n mod 10)) :: int) = 48 + n mod 10"
      by (rule digit_char_code) simp_all
    ultimately show ?thesis using False
      by (simp add: digits_large digits_value_snoc)
  qed
qed

lemma digits_hd_nonzero: "0 < n \<Longrightarrow> hd (digits n) \<noteq> CHR ''0''"
proof (induction n rule: digits.induct)
  case (1 n)
  show ?case
  proof (cases "n < 10")
    case True
    have "(of_char (digit_char n) :: int) = 48 + n"
      using True "1.prems" by (intro digit_char_code) simp_all
    then have "digit_char n \<noteq> CHR ''0''" using "1.prems" by (auto simp: char_eq_code)
    then show ?thesis using True by (simp add: digits_small)
  next
    case False
    then have "hd (digits (n div 10)) \<noteq> CHR ''0''"
      using "1.IH" [OF False] by simp
    then show ?thesis using False digits_nonempty [of "n div 10"] by (simp add: digits_large)
  qed
qed

lemma digits_zero: "digits 0 = ''0''"
  by (simp add: digits_small digit_char_def char_eq_code of_char_char_of_small)

lemma takeWhile_digits:
  assumes "0 \<le> n" "rest = [] \<or> \<not> is_digit (hd rest)"
  shows "takeWhile is_digit (digits n @ rest) = digits n"
proof -
  have "takeWhile is_digit rest = []" using assms(2) by (cases rest) auto
  then show ?thesis using digits_are_digits [OF assms(1)] by (simp add: takeWhile_append2)
qed

lemma delimited_facts:
  assumes "delimited rest"
  shows "rest = [] \<or> \<not> is_digit (hd rest)" "parse_fraction rest = Some ([], rest)"
    "parse_exponent rest = Some ([], rest)" "skip_ws rest = rest"
  using assms
  by (cases rest; auto simp: delimited_def is_digit_def parse_fraction_def parse_exponent_def
      skip_ws_def is_json_space_def)+

lemma integer_part_digits:
  assumes "0 \<le> n" "rest = [] \<or> \<not> is_digit (hd rest)"
  shows "integer_part (digits n @ rest) = digits n"
proof (cases "n = 0")
  case True
  then show ?thesis by (simp add: digits_zero integer_part_def)
next
  case False
  then have pos: "0 < n" using assms(1) by simp
  obtain c r where cr: "digits n = c # r" using digits_nonempty [of n] by (cases "digits n") auto
  then have "c \<noteq> CHR ''0''" using digits_hd_nonzero [OF pos] by simp
  then show ?thesis using takeWhile_digits [OF assms] cr by (simp add: integer_part_def)
qed

lemma parse_unsigned_digits:
  assumes "0 \<le> n" "delimited rest"
  shows "parse_unsigned neg whole (digits n @ rest) = Some (JInt (if neg then - n else n), rest)"
  using assms(1)
  by (simp add: parse_unsigned_def Let_def digits_nonempty
      integer_part_digits [OF assms(1) delimited_facts(1) [OF assms(2)]]
      delimited_facts [OF assms(2)] digits_value_digits)

lemma parse_number_int:
  assumes "delimited rest"
  shows "parse_number (toString i @ rest) = Some (JInt i, rest)"
proof (cases "i < 0")
  case False
  then have nn: "0 \<le> i" by simp
  obtain c r where cr: "digits i = c # r" using digits_nonempty [of i] by (cases "digits i") auto
  then have "c \<noteq> CHR ''-''" using digits_no_minus [OF nn] by auto
  then have "parse_number (digits i @ rest) = parse_unsigned False (digits i @ rest) (digits i @ rest)"
    using cr by (simp add: parse_number_def)
  then show ?thesis using False parse_unsigned_digits [OF nn assms] by (simp add: toString_def)
next
  case True
  then have pos: "0 \<le> - i" by simp
  have "parse_number (CHR ''-'' # digits (- i) @ rest) =
      parse_unsigned True (CHR ''-'' # digits (- i) @ rest) (digits (- i) @ rest)"
    by (simp add: parse_number_def)
  then show ?thesis using True parse_unsigned_digits [OF pos assms] by (simp add: toString_def)
qed


text \<open>Values: what \<^verbatim>\<open>print_json\<close> writes starts with a character that tells the kind of
  the value, and the parser reads it back, given fuel above twice the length of the
  text.\<close>

lemma toString_start: "toString i \<noteq> [] \<and> (hd (toString i) = CHR ''-'' \<or> is_digit (hd (toString i)))"
proof (cases "i < 0")
  case True
  then show ?thesis by (simp add: toString_def)
next
  case False
  then have nn: "0 \<le> i" by simp
  obtain c r where cr: "digits i = c # r" using digits_nonempty [of i] by (cases "digits i") auto
  then have "is_digit c" using digits_are_digits [OF nn] by simp
  then show ?thesis using False cr by (simp add: toString_def)
qed

lemma value_start_facts:
  assumes "value_start c"
  shows "\<not> is_json_space c" "c \<noteq> CHR '']''" "c \<noteq> CHR ''}''"
  using assms
  by (auto simp: value_start_def is_json_space_def is_digit_def dquote_def)

lemma print_json_start:
  "integral v \<Longrightarrow> print_json v \<noteq> [] \<and> value_start (hd (print_json v))"
proof (cases v)
  case (JInt i)
  then show ?thesis using toString_start [of i] by (auto simp: value_start_def)
qed (auto simp: value_start_def quote_def)

lemma skip_ws_start: "s \<noteq> [] \<Longrightarrow> \<not> is_json_space (hd s) \<Longrightarrow> skip_ws (s @ rest) = s @ rest"
  by (cases s) (simp_all add: skip_ws_def)

lemma skip_ws_print: "integral v \<Longrightarrow> skip_ws (print_json v @ rest) = print_json v @ rest"
  using print_json_start [of v] value_start_facts(1) by (intro skip_ws_start) auto

lemma skip_ws_char: "\<not> is_json_space c \<Longrightarrow> skip_ws (c # rest) = c # rest"
  by (simp add: skip_ws_def)

lemma punctuation_no_space:
  "\<not> is_json_space CHR '',''" "\<not> is_json_space CHR '']''" "\<not> is_json_space CHR ''}''"
  "\<not> is_json_space CHR '':''" "\<not> is_json_space CHR ''[''" "\<not> is_json_space CHR ''{''"
  "\<not> is_json_space dquote"
  by (simp_all add: is_json_space_def dquote_def)

lemma delimited_punctuation:
  "delimited (CHR '','' # rest)" "delimited (CHR '']'' # rest)" "delimited (CHR ''}'' # rest)"
  "delimited []"
  by (simp_all add: delimited_def)

lemma parse_value_string:
  "parse_value (Suc n) (quote s @ rest) = Some (JString s, rest)"
  by (simp add: quote_def skip_ws_char punctuation_no_space parse_chars_quoted)
     (simp add: dquote_def)

lemma parse_value_int:
  assumes "delimited rest"
  shows "parse_value (Suc n) (toString i @ rest) = Some (JInt i, rest)"
proof -
  obtain c r where cr: "toString i = c # r" using toString_start [of i] by (cases "toString i") auto
  then have st: "c = CHR ''-'' \<or> is_digit c" using toString_start [of i] by simp
  then have sp: "\<not> is_json_space c" by (auto simp: is_json_space_def is_digit_def)
  have other: "c \<noteq> CHR ''n''" "c \<noteq> CHR ''t''" "c \<noteq> CHR ''f''" "c \<noteq> dquote" "c \<noteq> CHR ''[''"
    "c \<noteq> CHR ''{''"
    using st by (auto simp: is_digit_def dquote_def)
  have "parse_value (Suc n) (c # r @ rest) = parse_number (c # r @ rest)"
    using sp other by (simp add: skip_ws_char)
  then show ?thesis using parse_number_int [OF assms, of i] cr by simp
qed

lemma join_Cons: "xs \<noteq> [] \<Longrightarrow> join (x # xs) = x @ CHR '','' # join xs"
  by (cases xs) simp_all

lemma parse_elements_print:
  assumes "\<And>v n rest. v \<in> set vs \<Longrightarrow> 2 * length (print_json v) < n \<Longrightarrow> delimited rest \<Longrightarrow>
              parse_value n (print_json v @ rest) = Some (v, rest)"
    and "vs \<noteq> []" "2 * length (join (map print_json vs)) + 1 < n"
  shows "parse_elements n (join (map print_json vs) @ CHR '']'' # rest) = Some (vs, rest)"
  using assms
proof (induction vs arbitrary: n)
  case Nil
  then show ?case by simp
next
  case (Cons v vs)
  obtain m where n: "n = Suc m" using Cons.prems(3) by (cases n) auto
  show ?case
  proof (cases "vs = []")
    case True
    have "parse_value m (print_json v @ CHR '']'' # rest) = Some (v, CHR '']'' # rest)"
      using Cons.prems(3) n True by (intro Cons.prems(1)) (simp_all add: delimited_punctuation)
    then show ?thesis using True n by (simp add: skip_ws_char punctuation_no_space)
  next
    case False
    let ?tail = "join (map print_json vs) @ CHR '']'' # rest"
    have len: "length (join (map print_json (v # vs))) =
        length (print_json v) + 1 + length (join (map print_json vs))"
      using False by (simp add: join_Cons)
    have "parse_value m (print_json v @ CHR '','' # ?tail) = Some (v, CHR '','' # ?tail)"
      using Cons.prems(3) n len by (intro Cons.prems(1)) (simp_all add: delimited_punctuation)
    moreover have "parse_elements m ?tail = Some (vs, rest)"
      using Cons.prems(1,3) n len False by (intro Cons.IH) simp_all
    ultimately show ?thesis using False n
      by (simp add: join_Cons skip_ws_char punctuation_no_space)
  qed
qed

lemma parse_members_print:
  assumes "\<And>kv n rest. kv \<in> set kvs \<Longrightarrow> 2 * length (print_json (snd kv)) < n \<Longrightarrow> delimited rest \<Longrightarrow>
              parse_value n (print_json (snd kv) @ rest) = Some (snd kv, rest)"
    and "kvs \<noteq> []"
    "2 * length (join (map (\<lambda>kv. quote (fst kv) @ '':'' @ print_json (snd kv)) kvs)) + 1 < n"
  shows "parse_members n
           (join (map (\<lambda>kv. quote (fst kv) @ '':'' @ print_json (snd kv)) kvs) @ CHR ''}'' # rest) =
         Some (kvs, rest)"
  using assms
proof (induction kvs arbitrary: n)
  case Nil
  then show ?case by simp
next
  case (Cons kv kvs)
  let ?f = "\<lambda>kv. quote (fst kv) @ '':'' @ print_json (snd kv)"
  obtain m where n: "n = Suc m" using Cons.prems(3) by (cases n) auto
  obtain k v where kv: "kv = (k, v)" by (cases kv)
  have key: "\<And>tail. parse_chars (concat (map escape_char k) @ dquote # tail) = Some (k, tail)"
    by (rule parse_chars_quoted)
  show ?case
  proof (cases "kvs = []")
    case True
    have "parse_value m (print_json v @ CHR ''}'' # rest) = Some (v, CHR ''}'' # rest)"
      using Cons.prems(1) [of kv m "CHR ''}'' # rest"] Cons.prems(3) n True kv
      by (simp add: delimited_punctuation)
    then show ?thesis using True n kv
      by (simp add: quote_def key skip_ws_char punctuation_no_space)
  next
    case False
    let ?tail = "join (map ?f kvs) @ CHR ''}'' # rest"
    have len: "length (join (map ?f (kv # kvs))) = length (?f kv) + 1 + length (join (map ?f kvs))"
      using False by (simp add: join_Cons)
    have "parse_value m (print_json v @ CHR '','' # ?tail) = Some (v, CHR '','' # ?tail)"
      using Cons.prems(1) [of kv m "CHR '','' # ?tail"] Cons.prems(3) n len kv
      by (simp add: delimited_punctuation)
    moreover have "parse_members m ?tail = Some (kvs, rest)"
      using Cons.prems(1,3) n len False by (intro Cons.IH) simp_all
    ultimately show ?thesis using False n kv
      by (simp add: join_Cons quote_def key skip_ws_char punctuation_no_space)
  qed
qed


lemma bracket_not_quote: "CHR ''['' \<noteq> dquote" "CHR ''{'' \<noteq> dquote"
  "dquote \<noteq> CHR ''}''" "dquote \<noteq> CHR '']''"
  by (simp_all add: dquote_def)

lemma join_start:
  assumes "xs \<noteq> []" "hd xs \<noteq> []"
  shows "join xs \<noteq> [] \<and> hd (join xs) = hd (hd xs)"
proof -
  obtain x r where xr: "xs = x # r" using assms(1) by (cases xs) auto
  show ?thesis using assms(2) xr by (cases r) auto
qed

lemma parse_value_print:
  "integral v \<Longrightarrow> 2 * length (print_json v) < n \<Longrightarrow> delimited rest \<Longrightarrow>
   parse_value n (print_json v @ rest) = Some (v, rest)"
proof (induction v arbitrary: n rest)
  case JNull
  then obtain m where "n = Suc m" by (cases n) auto
  then show ?case by (simp add: skip_ws_def is_json_space_def)
next
  case (JBool b)
  then obtain m where "n = Suc m" by (cases n) auto
  then show ?case by (simp add: skip_ws_def is_json_space_def)
next
  case (JInt i)
  then obtain m where "n = Suc m" by (cases n) auto
  then show ?case using parse_value_int [OF JInt.prems(3)] by simp
next
  case (JNumber lit)
  then show ?case by simp
next
  case (JString s)
  then obtain m where "n = Suc m" by (cases n) auto
  then show ?case using parse_value_string by simp
next
  case (JArray vs)
  obtain m where n: "n = Suc m" using JArray.prems(2) by (cases n) auto
  show ?case
  proof (cases "vs = []")
    case True
    then show ?thesis using n by (simp add: skip_ws_char punctuation_no_space bracket_not_quote)
  next
    case False
    let ?text = "join (map print_json vs)"
    have int: "\<forall>v \<in> set vs. integral v" using JArray.prems(1) by (simp add: list_all_iff)
    have ih: "\<And>v n rest. v \<in> set vs \<Longrightarrow> 2 * length (print_json v) < n \<Longrightarrow> delimited rest \<Longrightarrow>
              parse_value n (print_json v @ rest) = Some (v, rest)"
      using JArray.IH int by blast
    have first: "print_json (hd vs) \<noteq> [] \<and> value_start (hd (print_json (hd vs)))"
      using print_json_start [of "hd vs"] int False by simp
    then have "?text \<noteq> [] \<and> hd ?text = hd (print_json (hd vs))"
      using False join_start [of "map print_json vs"] by (simp add: hd_map)
    then obtain c t where ct: "?text = c # t" "value_start c"
      using first by (cases ?text) auto
    have el: "parse_elements m (?text @ CHR '']'' # rest) = Some (vs, rest)"
      using JArray.prems(2) n False by (intro parse_elements_print ih) simp_all
    have "parse_value (Suc m) (CHR ''['' # c # t @ CHR '']'' # rest) =
        (case parse_elements m (c # t @ CHR '']'' # rest) of
           None \<Rightarrow> None | Some (vs, r2) \<Rightarrow> Some (JArray vs, r2))"
      using value_start_facts [OF ct(2)]
      by (simp add: skip_ws_char punctuation_no_space bracket_not_quote)
    then show ?thesis using el ct(1) n by simp
  qed
next
  case (JObject kvs)
  obtain m where n: "n = Suc m" using JObject.prems(2) by (cases n) auto
  let ?f = "\<lambda>kv. quote (fst kv) @ '':'' @ print_json (snd kv)"
  show ?case
  proof (cases "kvs = []")
    case True
    then show ?thesis using n by (simp add: skip_ws_char punctuation_no_space bracket_not_quote)
  next
    case False
    let ?text = "join (map ?f kvs)"
    have int: "\<forall>kv \<in> set kvs. integral (snd kv)" using JObject.prems(1) by (simp add: list_all_iff)
    have ih: "\<And>kv n rest. kv \<in> set kvs \<Longrightarrow> 2 * length (print_json (snd kv)) < n \<Longrightarrow> delimited rest \<Longrightarrow>
              parse_value n (print_json (snd kv) @ rest) = Some (snd kv, rest)"
    proof -
      fix kv n rest
      assume a: "kv \<in> set kvs" "2 * length (print_json (snd kv)) < n" "delimited rest"
      have "snd kv \<in> Basic_BNFs.snds kv" by (cases kv) simp
      then show "parse_value n (print_json (snd kv) @ rest) = Some (snd kv, rest)"
        using JObject.IH [OF a(1) _ _ a(2,3)] int a(1) by blast
    qed
    have "?f (hd kvs) \<noteq> [] \<and> hd (?f (hd kvs)) = dquote" by (simp add: quote_def)
    then have "?text \<noteq> [] \<and> hd ?text = dquote"
      using False join_start [of "map ?f kvs"] by (simp add: hd_map)
    then obtain t where ct: "?text = dquote # t" by (cases ?text) auto
    have el: "parse_members m (?text @ CHR ''}'' # rest) = Some (kvs, rest)"
      using JObject.prems(2) n False by (intro parse_members_print ih) simp_all
    have "parse_value (Suc m) (CHR ''{'' # dquote # t @ CHR ''}'' # rest) =
        (case parse_members m (dquote # t @ CHR ''}'' # rest) of
           None \<Rightarrow> None | Some (kvs, r2) \<Rightarrow> Some (JObject kvs, r2))"
      by (simp add: skip_ws_char punctuation_no_space bracket_not_quote)
    then show ?thesis using el ct n by simp
  qed
qed

lemma parse_json_print: "integral v \<Longrightarrow> parse_json (print_json v) = Some v"
  using parse_value_print [of v "Suc (2 * length (print_json v))" "[]"]
  by (simp add: parse_json_def delimited_punctuation skip_ws_def)

text \<open>A session subset is read back from its JSON value.\<close>

lemma fileOfJson_fileJson: "fileOfJson (fileJson f) = Some f"
  by (cases f) (simp add: fileOfJson_def fileJson_def stringField_def lookupField_def)

lemma statusOfText_statusText: "statusOfText (statusText st) = Some st"
  by (cases st) (simp_all add: statusOfText_def statusText_def)

lemma testCaseOfJson_testCaseJson: "testCaseOfJson (testCaseJson tc) = Some tc"
proof (cases tc)
  case (fields i inp out st)
  then show ?thesis
    by (cases out)
       (simp_all add: testCaseOfJson_def testCaseJson_def stringField_def lookupField_def
          statusOfText_statusText)
qed

lemma those_files: "those (map (fileOfJson \<circ> fileJson) fs) = Some fs"
  by (induction fs) (simp_all add: fileOfJson_fileJson)

lemma those_testCases: "those (map (testCaseOfJson \<circ> testCaseJson) tcs) = Some tcs"
  by (induction tcs) (simp_all add: testCaseOfJson_testCaseJson)

lemma fromJson_toJson: "fromJson (toJson data) = data"
proof (cases data)
  case (fields l fs tcs)
  then show ?thesis
    by (cases l; cases fs; cases tcs)
       (simp_all add: fromJson_def toJson_def stringField_def lookupField_def those_files those_testCases)
qed

lemma integral_fileJson: "integral (fileJson f)"
  by (simp add: fileJson_def)

lemma integral_testCaseJson: "integral (testCaseJson tc)"
  by (simp add: testCaseJson_def split: option.splits)

lemma integral_toJson: "integral (toJson data)"
  by (cases "sh_language data"; cases "sh_files data"; cases "sh_testCases data")
     (simp_all add: toJson_def list_all_iff integral_fileJson integral_testCaseJson)

lemma JSON_stringify_nonempty: "JSON_stringify data \<noteq> []"
  by (simp add: JSON_stringify_def toJson_def)

lemma JSON_parse_stringify: "JSON_parse (JSON_stringify data) = Parsed data"
proof -
  have "parse_json (print_json (toJson data)) = Some (toJson data)"
    by (rule parse_json_print) (rule integral_toJson)
  moreover obtain kvs where "toJson data = JObject kvs" by (simp add: toJson_def)
  ultimately show ?thesis
    using fromJson_toJson [of data] by (simp add: JSON_parse_def JSON_stringify_def)
qed

lemma hexDecompress_hexCompress: "hexDecompress (hexCompress t) = Some t"
proof (induction t)
  case Nil
  then show ?case by (simp add: hexCompress_def)
next
  case (Cons c t)
  let ?n = "of_char c :: int"
  have rng: "0 \<le> ?n" "?n < 256" using of_char_range [of c] by auto
  have hi: "hex_value (hex_digit (?n div 16)) = Some (?n div 16)"
    using rng by (intro hex_value_digit) auto
  have lo: "hex_value (hex_digit (?n mod 16)) = Some (?n mod 16)"
    by (intro hex_value_digit) auto
  have "char_of (?n div 16 * 16 + ?n mod 16) = c" by simp
  then show ?case using Cons.IH hi lo by (simp add: hexCompress_def)
qed

lemma hexCompress_nonempty: "t \<noteq> [] \<Longrightarrow> hexCompress t \<noteq> []"
  by (cases t) (simp_all add: hexCompress_def)

section \<open>Share links\<close>

text \<open>A token that does not decompress, or whose text is not JSON, or is the JSON
  \<^verbatim>\<open>null\<close>, leaves no trace in the state cells: the mount effect restores from storage
  as it does without a token (in the last two cases after logging the error).\<close>

lemma mountEffect_undecodable:
  "decompress token = None \<or> decompress token = Some [] \<Longrightarrow>
   mountEffect decompress parse (Some token) st = restoreFromStorage st initialMount"
  by (auto simp: mountEffect_def)

lemma mountEffect_unparsable:
  "decompress token = Some text \<Longrightarrow> parse text = SyntaxError \<or> parse text = ParsedNull \<Longrightarrow>
   mountEffect decompress parse (Some token) st =
     (if token = [] \<or> text = [] then restoreFromStorage st initialMount
      else restoreFromStorage st (initialMount\<lparr>m_logged := True\<rparr>))"
  by (auto simp: mountEffect_def)

lemma mountEffect_no_files:
  "token \<noteq> [] \<Longrightarrow> decompress token = Some text \<Longrightarrow> text \<noteq> [] \<Longrightarrow> parse text = Parsed data \<Longrightarrow>
   sh_files data = None \<Longrightarrow>
   mountEffect decompress parse (Some token) st =
     restoreFromStorage st
       (initialMount\<lparr>m_language := sh_language data, m_files := None,
                     m_testCases := sh_testCases data, m_logged := True\<rparr>)"
  by (simp add: mountEffect_def Let_def)

text \<open>Claim C8, at a token whose object has the field \<^verbatim>\<open>language\<close> and no field
  \<^verbatim>\<open>files\<close>, on a first visit (nothing in storage). The effect calls the three setters,
  then reading \<^verbatim>\<open>data.files[0]\<close> raises; the error is logged and the restore from storage
  runs, but storage holds nothing to put back: the language cell keeps the token's
  language and the cells of the files and the test cases are left \<^verbatim>\<open>undefined\<close>.\<close>

theorem mountEffect_applies_part_of_token:
  "mountEffect plainDecompress languageOnlyParse (Some ''token'') emptyStorage =
     initialMount\<lparr>m_language := Some ''python'', m_files := None, m_testCases := None,
                  m_logged := True\<rparr> \<and>
   sessionOfMount (mountEffect plainDecompress languageOnlyParse (Some ''token'') emptyStorage) = None \<and>
   mountEffect plainDecompress languageOnlyParse None emptyStorage = initialMount"
  by (simp add: mountEffect_def plainDecompress_def languageOnlyParse_def languageOnly_def
      restoreFromStorage_def emptyStorage_def initialMount_def sessionOfMount_def Let_def)

text \<open>The texts at the ends of the grammar: \<^verbatim>\<open>null\<close>, a text that is cut off, the empty
  text, and an object with the single field \<^verbatim>\<open>language\<close> written with white space.\<close>

lemma JSON_parse_samples:
  "JSON_parse ''null'' = ParsedNull \<and>
   JSON_parse ''{'' = SyntaxError \<and>
   JSON_parse [] = SyntaxError \<and>
   JSON_parse (''{ '' @ [dquote] @ ''language'' @ [dquote] @ '' : '' @ [dquote] @ ''python'' @ [dquote] @ '' }'')
     = Parsed languageOnly \<and>
   JSON_stringify languageOnly =
     ''{'' @ [dquote] @ ''language'' @ [dquote] @ '':'' @ [dquote] @ ''python'' @ [dquote] @ ''}''"
  by code_simp

text \<open>Claim C9. The JSON text of a session subset parses back to the same subset,
  whatever its language, files and test cases are. Let the compression library return
  a token that is not empty and that it decompresses to the text it was given. Then the
  URL that \<^verbatim>\<open>handleShare\<close> builds is the page URL, \<^verbatim>\<open>?data=\<close> and the token, and the
  mount effect on this token sets language, files and test cases to those of the session
  that was shared and the active id to the id of its first file, takes the early return
  (nothing is read from storage: theme, history and standard input keep their initial
  values) and logs no error.\<close>

theorem share_round_trip:
  "JSON_parse (JSON_stringify data) = Parsed data \<and>
   (compress (JSON_stringify (sharedOf s)) \<noteq> [] \<and>
    decompress (compress (JSON_stringify (sharedOf s))) = Some (JSON_stringify (sharedOf s)) \<longrightarrow>
      handleShare JSON_stringify compress pageUrl s =
        pageUrl @ ''?data='' @ shareToken JSON_stringify compress s \<and>
      mountEffect decompress JSON_parse (Some (shareToken JSON_stringify compress s)) st =
        \<lparr>m_theme = ''dark'', m_language = Some (language s), m_files = Some (files s),
         m_activeFileId = firstFileId (files s), m_testCases = Some (testCases s),
         m_history = [], m_stdin = [], m_logged = False, m_fromShare = True\<rparr>)"
proof (intro conjI impI)
  show "JSON_parse (JSON_stringify data) = Parsed data" by (rule JSON_parse_stringify)
next
  show "handleShare JSON_stringify compress pageUrl s =
        pageUrl @ ''?data='' @ shareToken JSON_stringify compress s"
    by (simp add: handleShare_def)
next
  assume a: "compress (JSON_stringify (sharedOf s)) \<noteq> [] \<and>
    decompress (compress (JSON_stringify (sharedOf s))) = Some (JSON_stringify (sharedOf s))"
  have p: "JSON_parse (JSON_stringify (sharedOf s)) = Parsed (sharedOf s)"
    by (rule JSON_parse_stringify)
  show "mountEffect decompress JSON_parse (Some (shareToken JSON_stringify compress s)) st =
        \<lparr>m_theme = ''dark'', m_language = Some (language s), m_files = Some (files s),
         m_activeFileId = firstFileId (files s), m_testCases = Some (testCases s),
         m_history = [], m_stdin = [], m_logged = False, m_fromShare = True\<rparr>"
    using a p by (simp add: mountEffect_def shareToken_def JSON_stringify_nonempty Let_def)
                 (simp add: sharedOf_def initialMount_def)
qed

text \<open>The Python session shared through the hexadecimal stand-in and opened in a browser
  whose storage holds a Java session: the cells get the Python session, where a mount
  without the token gets the Java one.\<close>

theorem share_round_trip_witness:
  "hexCompress (JSON_stringify (sharedOf pythonSession)) \<noteq> [] \<and>
   hexDecompress (hexCompress (JSON_stringify (sharedOf pythonSession))) =
     Some (JSON_stringify (sharedOf pythonSession)) \<and>
   JSON_parse (JSON_stringify (sharedOf pythonSession)) = Parsed (sharedOf pythonSession) \<and>
   mountEffect hexDecompress JSON_parse
      (Some (shareToken JSON_stringify hexCompress pythonSession)) javaStorage =
     \<lparr>m_theme = ''dark'', m_language = Some ''python'', m_files = Some (files pythonSession),
      m_activeFileId = ''1'', m_testCases = Some (testCases pythonSession),
      m_history = [], m_stdin = [], m_logged = False, m_fromShare = True\<rparr> \<and>
   length (files pythonSession) = 2 \<and> length (testCases pythonSession) = 2 \<and>
   m_theme (mountEffect hexDecompress JSON_parse None javaStorage) = ''light'' \<and>
   m_language (mountEffect hexDecompress JSON_parse None javaStorage) = Some ''java'' \<and>
   m_files (mountEffect hexDecompress JSON_parse None javaStorage) = stored_files javaStorage \<and>
   m_testCases (mountEffect hexDecompress JSON_parse None javaStorage) = Some []"
proof -
  have h: "hexCompress (JSON_stringify (sharedOf pythonSession)) \<noteq> [] \<and>
     hexDecompress (hexCompress (JSON_stringify (sharedOf pythonSession))) =
       Some (JSON_stringify (sharedOf pythonSession))"
    by (simp add: hexDecompress_hexCompress hexCompress_nonempty JSON_stringify_nonempty)
  note th = share_round_trip [where data = "sharedOf pythonSession" and compress = hexCompress
      and decompress = hexDecompress and s = pythonSession and st = javaStorage]
  have m: "mountEffect hexDecompress JSON_parse
      (Some (shareToken JSON_stringify hexCompress pythonSession)) javaStorage =
        \<lparr>m_theme = ''dark'', m_language = Some (language pythonSession),
         m_files = Some (files pythonSession),
         m_activeFileId = firstFileId (files pythonSession),
         m_testCases = Some (testCases pythonSession),
         m_history = [], m_stdin = [], m_logged = False, m_fromShare = True\<rparr>"
    using th h by blast
  have p: "JSON_parse (JSON_stringify (sharedOf pythonSession)) = Parsed (sharedOf pythonSession)"
    using th by blast
  have l: "language pythonSession = ''python''" "firstFileId (files pythonSession) = ''1''"
    "length (files pythonSession) = 2" "length (testCases pythonSession) = 2"
    by (simp_all add: pythonSession_def firstFileId_def)
  have none: "mountEffect hexDecompress JSON_parse None javaStorage =
      restoreFromStorage javaStorage initialMount"
    by (simp add: mountEffect_def)
  have j: "m_theme (restoreFromStorage javaStorage initialMount) = ''light''"
    "m_language (restoreFromStorage javaStorage initialMount) = Some ''java''"
    "m_files (restoreFromStorage javaStorage initialMount) = stored_files javaStorage"
    "m_testCases (restoreFromStorage javaStorage initialMount) = Some []"
    by (simp_all add: restoreFromStorage_def javaStorage_def initialMount_def Let_def)
  show ?thesis
    using h p by (simp add: m l none j)
qed

end
